theory Spec2Isabelle
  imports Complex_Main "HOL-Library.Multiset"
begin

section \<open>Power transforms (\<^verbatim>\<open>pynorm/preprocessing/transform.py\<close>)\<close>

text \<open>
  NumPy's float64 values are modelled by the reals they denote, and the arithmetic of
  the transforms by the exact operations of the reals. Wherever the source applies
  \<^verbatim>\<open>np.power\<close> or \<^verbatim>\<open>np.log\<close> to an argument that is provably
  positive, the real functions \<open>powr\<close> and \<open>ln\<close> are used directly; where the argument
  may be non-positive, the result is a \<open>real option\<close> whose \<open>None\<close> stands for a
  non-finite float (\<^verbatim>\<open>nan\<close>, \<^verbatim>\<open>inf\<close>, \<^verbatim>\<open>-inf\<close>).
\<close>

subsection \<open>Errors\<close>

text \<open>
  Every exception the modelled code can raise is a value of this type; a fallible
  operation returns \<open>error + 'a\<close>, with \<open>Inl\<close> carrying the exception.
\<close>

datatype error =
    DataIsEmpty                 \<comment> \<open>\<^verbatim>\<open>ValueError('data is empty')\<close>\<close>
  | KeyError string             \<comment> \<open>a missing column or dictionary key\<close>
  | InvalidRatio                \<comment> \<open>\<^verbatim>\<open>ValueError('ratio should be a float between 0.0 and 1.0, ...')\<close>\<close>
  | InvalidTarget               \<comment> \<open>\<^verbatim>\<open>ValueError('y must be a column name')\<close>\<close>
  | TooManyClasses nat nat      \<comment> \<open>\<^verbatim>\<open>ValueError('class balancing can only handle <= %i classes, but got %i')\<close>\<close>
  | TooFewClasses               \<comment> \<open>\<^verbatim>\<open>ValueError('class balancing requires at least 2 classes')\<close>\<close>
  | SingleObservation real      \<comment> \<open>\<^verbatim>\<open>ValueError('cannot perform SMOTE on only one observation (class=%s)')\<close>\<close>
  | ChoiceError                 \<comment> \<open>\<^verbatim>\<open>ValueError\<close> of \<^verbatim>\<open>numpy.random.choice\<close>\<close>
  | NeighborsError              \<comment> \<open>the error of the nearest-neighbour query\<close>
  | IndexError                  \<comment> \<open>a positional index out of range\<close>
  | TypeError                   \<comment> \<open>a call with a keyword argument the callee does not declare\<close>

subsection \<open>Constants and helpers\<close>

text \<open>
  \<^verbatim>\<open>ZERO = 1e-16\<close>: the float64 value of the literal, which is
  \<open>2028240960365167 / 2 ^ 104\<close> (\<^verbatim>\<open>0x1.cd2b297d889bcp-54\<close>), a little below
  \<open>10 ^ -16\<close>.
\<close>

definition ZERO :: real where
  "ZERO = 2028240960365167 / 2 ^ 104"

text \<open>
  The reals that are float64 values: an integer significand below \<open>2 ^ 53\<close> in
  magnitude, scaled by a power of two within the exponent range.
\<close>

definition float64 :: "real \<Rightarrow> bool" where
  "float64 v = (\<exists>m e :: int. \<bar>m\<bar> < 2 ^ 53 \<and> - 1074 \<le> e \<and> e \<le> 971 \<and>
                               v = real_of_int m * 2 powr real_of_int e)"

definition eqls :: "real \<Rightarrow> real \<Rightarrow> bool" where
  "eqls lam v = (\<bar>lam\<bar> \<le> v)"

subsection \<open>Yeo-Johnson, one value\<close>

definition yj_trans_single_x :: "real \<Rightarrow> real \<Rightarrow> real" where
  "yj_trans_single_x x lam =
     (if x \<ge> 0 then
        (if \<not> eqls lam ZERO then ((x + 1) powr lam - 1) / lam
         else ln (x + 1))
      else
        (if \<not> lam = 2 then
           (let denom = 2 - lam;
                numer = (- x + 1) powr (2 - lam) - 1
            in - numer / denom)
         else - ln (- x + 1)))"

text \<open>
  The transform as the specification words it: both boundary tests (\<open>lambda\<close> equals
  zero, \<open>lambda\<close> equals two) decided by the absolute threshold \<open>1e-16\<close>, that is
  \<open>\<bar>lambda - c\<bar> \<le> 1e-16\<close> for \<open>c = 0\<close> and \<open>c = 2\<close>.
\<close>

definition yj_threshold_both :: "real \<Rightarrow> real \<Rightarrow> real" where
  "yj_threshold_both x lam =
     (if x \<ge> 0 then
        (if \<bar>lam - 0\<bar> \<le> 1 / 10 ^ 16 then ln (x + 1) else ((x + 1) powr lam - 1) / lam)
      else
        (if \<bar>lam - 2\<bar> \<le> 1 / 10 ^ 16 then - ln (- x + 1)
         else - (((- x + 1) powr (2 - lam) - 1) / (2 - lam))))"


subsection \<open>float64 arithmetic\<close>

text \<open>
  Where the outcome of the source depends on the rounding of a float64 operation (the
  products and quotients of a ratio and a class count in the balancers), the operation is
  the exact one followed by rounding to the nearest float64, ties to even. \<open>fl64\<close>
  is that rounding: the exponent of \<open>x\<close> is \<open>\<lfloor>log 2 \<bar>x\<bar>\<rfloor>\<close>, not below \<open>-1022\<close>
  (subnormal numbers), and the significand keeps 53 bits. Overflow to infinity is not
  modelled: the operands below are a ratio in \<open>(0, 1]\<close> and class counts, which a
  frame in memory keeps far below \<open>2 ^ 53\<close>, so that a count converts to float64
  exactly and no product or quotient leaves the float64 range.
\<close>

definition round_half_even :: "real \<Rightarrow> int" where
  "round_half_even y =
     (let f = \<lfloor>y\<rfloor>; d = y - real_of_int f
      in if d < 1 / 2 then f else if 1 / 2 < d then f + 1 else if even f then f else f + 1)"

definition fl64 :: "real \<Rightarrow> real" where
  "fl64 x =
     (if x = 0 then 0
      else
        let e = max \<lfloor>log 2 \<bar>x\<bar>\<rfloor> (- 1022);
            q = 2 powr (real_of_int e - 52)
        in real_of_int (round_half_even (x / q)) * q)"

definition fmul :: "real \<Rightarrow> real \<Rightarrow> real" where
  "fmul a b = fl64 (a * b)"

definition fdiv :: "real \<Rightarrow> real \<Rightarrow> real" where
  "fdiv a b = fl64 (a / b)"

subsection \<open>Yeo-Johnson log-likelihood\<close>

definition yj_transform_y :: "real list \<Rightarrow> real \<Rightarrow> real list" where
  "yj_transform_y y lam = map (\<lambda>x. yj_trans_single_x x lam) y"

text \<open>\<^verbatim>\<open>np.min\<close>; the source calls it on non-empty arrays only.\<close>

definition np_min :: "real list \<Rightarrow> real" where
  "np_min xs = Min (set xs)"

text \<open>
  \<^verbatim>\<open>_yj_llf(data, lmb)\<close>. The argument is a NumPy array, and
  \<^verbatim>\<open>np.asarray(data)\<close> returns that very array object, so the in-place
  \<^verbatim>\<open>data += shift\<close> writes to the caller's array; \<^verbatim>\<open>y\<close> is a fresh array
  (\<^verbatim>\<open>_yj_transform_y\<close> builds it), so \<^verbatim>\<open>y += shift\<close> is local. The model returns
  the value of the call (\<open>None\<close> for \<^verbatim>\<open>np.nan\<close>) together with the contents of the
  caller's array when the call ends. The value is written with the exact operations of
  the reals; the source computes it in float64, whose rounding (in the mean, the variance
  and the logarithms) it does not follow. The contents of the array are exact wherever
  the shifted values are float64 values, as for the small integers used below.
\<close>

definition yj_llf :: "real list \<Rightarrow> real \<Rightarrow> (error + real option) \<times> real list" where
  "yj_llf data lmb =
     (let N = length data in
      if 0 = N then (Inl DataIsEmpty, data)
      else
        let y = yj_transform_y data lmb;
            min_d = np_min data;
            min_y = np_min y;
            data = (if min_d < ZERO then map (\<lambda>v. v + (\<bar>min_d\<bar> + 1)) data else data);
            y = (if min_y < ZERO then map (\<lambda>v. v + (\<bar>min_y\<bar> + 1)) y else y);
            y_mean = sum_list y / real N;
            var = sum_list (map (\<lambda>v. (v - y_mean) ^ 2 / real N) y)
        in if 0 = var then (Inr None, data)
           else (Inr (Some ((lmb - 1) * sum_list (map ln data) - real N / 2 * ln var)), data))"

text \<open>
  \<^verbatim>\<open>_eval_mle(lmb, data)\<close>, the objective \<^verbatim>\<open>_yj_normmax\<close> hands to the scalar
  optimiser with \<^verbatim>\<open>args = (x,)\<close>: every evaluation receives the same array object.
\<close>

definition eval_mle :: "real \<Rightarrow> real list \<Rightarrow> (error + real option) \<times> real list" where
  "eval_mle lmb data =
     (case yj_llf data lmb of
        (Inl e, d) \<Rightarrow> (Inl e, d)
      | (Inr v, d) \<Rightarrow> (Inr (map_option uminus v), d))"

text \<open>
  The optimiser is an external collaborator; what matters here is that it evaluates the
  objective at one candidate after the other on the same array. \<open>eval_mle_calls\<close>
  runs such a sequence of evaluations and returns the values together with the final
  contents of the array.
\<close>

fun eval_mle_calls :: "real list \<Rightarrow> real list \<Rightarrow> (error + real option) list \<times> real list" where
  "eval_mle_calls [] data = ([], data)"
| "eval_mle_calls (lmb # lmbs) data =
     (let (v, data1) = eval_mle lmb data;
          (vs, data2) = eval_mle_calls lmbs data1
      in (v # vs, data2))"

text \<open>
  A vector after the positivity shift of \<^verbatim>\<open>_yj_llf\<close>: raised by \<open>\<bar>min\<bar> + 1\<close> when
  its minimum is below \<^verbatim>\<open>ZERO\<close>.
\<close>

definition shifted_up :: "real list \<Rightarrow> real list" where
  "shifted_up v = (if Min (set v) < ZERO then map (\<lambda>x. x + (\<bar>Min (set v)\<bar> + 1)) v else v)"

section \<open>Data frames\<close>

text \<open>
  A pandas \<^verbatim>\<open>DataFrame\<close> is modelled column-wise: the list of its columns in order,
  each a name with its values, one per row. Frames handed to the functions below have
  passed \<^verbatim>\<open>validate_is_pd\<close>; the cells of an input frame are finite floats.
\<close>

type_synonym 'a frame = "(string \<times> 'a list) list"

text \<open>\<^verbatim>\<open>X.shape[0]\<close>, the number of rows.\<close>

definition nrows :: "'a frame \<Rightarrow> nat" where
  "nrows X = (case X of [] \<Rightarrow> 0 | (nm, c) # _ \<Rightarrow> length c)"

text \<open>All columns of a frame have the same length.\<close>

definition rectangular :: "'a frame \<Rightarrow> bool" where
  "rectangular X = list_all (\<lambda>(nm, c). length c = nrows X) X"

text \<open>\<^verbatim>\<open>X[nm]\<close> for a column name: \<^verbatim>\<open>KeyError\<close> when there is no such column.\<close>

definition df_get :: "'a frame \<Rightarrow> string \<Rightarrow> error + 'a list" where
  "df_get X nm = (case map_of X nm of None \<Rightarrow> Inl (KeyError nm) | Some c \<Rightarrow> Inr c)"

text \<open>\<^verbatim>\<open>X[nm] = c\<close>: replaces the column, or appends it when the name is new.\<close>

definition df_set :: "'a frame \<Rightarrow> string \<Rightarrow> 'a list \<Rightarrow> 'a frame" where
  "df_set X nm c =
     (if nm \<in> set (map fst X) then map (\<lambda>(n, old). if n = nm then (n, c) else (n, old)) X
      else X @ [(nm, c)])"

text \<open>\<^verbatim>\<open>X[cols]\<close> for a list of names: a new frame of those columns.\<close>

fun df_select :: "'a frame \<Rightarrow> string list \<Rightarrow> error + 'a frame" where
  "df_select X [] = Inr []"
| "df_select X (nm # nms) =
     (case df_get X nm of
        Inl e \<Rightarrow> Inl e
      | Inr c \<Rightarrow> (case df_select X nms of Inl e \<Rightarrow> Inl e | Inr Y \<Rightarrow> Inr ((nm, c) # Y)))"

text \<open>
  \<^verbatim>\<open>X[msk]\<close> for a Boolean frame \<^verbatim>\<open>msk\<close>: pandas answers with
  \<^verbatim>\<open>X.where(msk)\<close>, a \<^emph>\<open>new\<close> frame that keeps a cell where the mask holds
  and has \<^verbatim>\<open>NaN\<close> (\<open>None\<close>) elsewhere, also in the columns the mask lacks.
\<close>

definition df_where :: "real frame \<Rightarrow> bool frame \<Rightarrow> real option frame" where
  "df_where X msk =
     map (\<lambda>(nm, c).
            (nm, case map_of msk nm of
                   None \<Rightarrow> map (\<lambda>v. None) c
                 | Some b \<Rightarrow> map (\<lambda>(v, keep). if keep then Some v else None) (zip c b))) X"

text \<open>\<^verbatim>\<open>X[cols] = v\<close> for a scalar \<^verbatim>\<open>v\<close>: every row of those columns becomes \<open>v\<close>.\<close>

definition df_set_scalar :: "'a frame \<Rightarrow> string list \<Rightarrow> 'a \<Rightarrow> 'a frame" where
  "df_set_scalar X cols v = fold (\<lambda>nm Y. df_set Y nm (replicate (nrows X) v)) cols X"

section \<open>Box-Cox transformer\<close>

text \<open>
  \<^verbatim>\<open>np.power\<close> and \<^verbatim>\<open>np.log\<close> on arbitrary real arguments; \<open>None\<close> is a
  non-finite float. A negative base has a finite power only for an integral exponent.
\<close>

definition np_power :: "real \<Rightarrow> real \<Rightarrow> real option" where
  "np_power x a =
     (if 0 < x then Some (x powr a)
      else if x = 0 then (if 0 < a then Some 0 else if a = 0 then Some 1 else None)
      else if a \<in> \<int> then Some (if even \<lfloor>a\<rfloor> then \<bar>x\<bar> powr a else - (\<bar>x\<bar> powr a))
      else None)"

definition np_log :: "real \<Rightarrow> real option" where
  "np_log x = (if 0 < x then Some (ln x) else None)"

text \<open>
  A fitted transformer: \<^verbatim>\<open>check_is_fitted(self, 'shift_')\<close> passes, and
  \<^verbatim>\<open>cols_\<close>, \<^verbatim>\<open>lambda_\<close> and \<^verbatim>\<open>shift_\<close> are set (a trailing underscore is
  not an Isabelle name, hence the prefix). (\<^verbatim>\<open>as_df\<close> is taken as
  \<^verbatim>\<open>True\<close>: the result is the frame.)
\<close>

record BoxCoxTransformer =
  bc_cols :: "string list"
  bc_lambda :: "string \<rightharpoonup> real"
  bc_shift :: "string \<rightharpoonup> real"

text \<open>The shift \<^verbatim>\<open>fit\<close> stores for a column whose minimum is \<open>x\<close>.\<close>

definition fit_shift :: "real \<Rightarrow> real" where
  "fit_shift x = (if x \<le> 0 then \<bar>x\<bar> + 1 / 10 ^ 6 else 0)"

definition dict_get :: "(string \<rightharpoonup> 'a) \<Rightarrow> string \<Rightarrow> error + 'a" where
  "dict_get d k = (case d k of None \<Rightarrow> Inl (KeyError k) | Some v \<Rightarrow> Inr v)"

text \<open>\<^verbatim>\<open>for nm in self.cols_: X[nm] += shifts_[nm]\<close>\<close>

fun add_shifts :: "real frame \<Rightarrow> (string \<rightharpoonup> real) \<Rightarrow> string list \<Rightarrow> error + real frame" where
  "add_shifts X shifts [] = Inr X"
| "add_shifts X shifts (nm # nms) =
     (case df_get X nm of
        Inl e \<Rightarrow> Inl e
      | Inr c \<Rightarrow>
          (case dict_get shifts nm of
             Inl e \<Rightarrow> Inl e
           | Inr s \<Rightarrow> add_shifts (df_set X nm (map (\<lambda>v. v + s) c)) shifts nms))"

text \<open>
  \<^verbatim>\<open>X[X[self.cols_] <= 0.0][self.cols_] = 1e-6\<close>. This is a chained assignment:
  \<^verbatim>\<open>X[mask]\<close> builds a temporary frame, and the assignment of \<^verbatim>\<open>1e-6\<close> goes to the
  columns of that temporary, which is then dropped. The model returns the frame \<open>X\<close>
  as it is after the statement, together with the temporary that was assigned to.
\<close>

definition truncate_stmt :: "real frame \<Rightarrow> string list \<Rightarrow> error + (real frame \<times> real option frame)" where
  "truncate_stmt X cols =
     (case df_select X cols of
        Inl e \<Rightarrow> Inl e
      | Inr sel \<Rightarrow>
          (let msk = map (\<lambda>(nm, c). (nm, map (\<lambda>v. v \<le> 0) c)) sel;
               tmp = df_where X msk;
               tmp = df_set_scalar tmp cols (Some (1 / 10 ^ 6))
           in Inr (X, tmp)))"

text \<open>
  \<^verbatim>\<open>_transform_y(y, lam)\<close>. A cell that is already non-finite (which needs a name
  repeated in \<^verbatim>\<open>cols_\<close>) is kept non-finite.
\<close>

definition transform_y :: "real option list \<Rightarrow> real \<Rightarrow> real option list" where
  "transform_y y lam =
     map (\<lambda>cell. Option.bind cell
            (\<lambda>x. if \<not> eqls lam ZERO then map_option (\<lambda>p. (p - 1) / lam) (np_power x lam)
                 else np_log x)) y"

text \<open>\<^verbatim>\<open>for nm in self.cols_: X[nm] = _transform_y(X[nm], lambdas_[nm])\<close>\<close>

fun transform_cols :: "real option frame \<Rightarrow> (string \<rightharpoonup> real) \<Rightarrow> string list \<Rightarrow> error + real option frame" where
  "transform_cols X lambdas [] = Inr X"
| "transform_cols X lambdas (nm # nms) =
     (case df_get X nm of
        Inl e \<Rightarrow> Inl e
      | Inr c \<Rightarrow>
          (case dict_get lambdas nm of
             Inl e \<Rightarrow> Inl e
           | Inr lam \<Rightarrow> transform_cols (df_set X nm (transform_y c lam)) lambdas nms))"

text \<open>\<^verbatim>\<open>BoxCoxTransformer.transform(X)\<close>, on the copy of \<open>X\<close> it makes.\<close>

definition BoxCox_transform :: "BoxCoxTransformer \<Rightarrow> real frame \<Rightarrow> error + real option frame" where
  "BoxCox_transform self X =
     (case add_shifts X (bc_shift self) (bc_cols self) of
        Inl e \<Rightarrow> Inl e
      | Inr X1 \<Rightarrow>
          (case truncate_stmt X1 (bc_cols self) of
             Inl e \<Rightarrow> Inl e
           | Inr (X2, tmp) \<Rightarrow>
               transform_cols (map (\<lambda>(nm, c). (nm, map Some c)) X2) (bc_lambda self) (bc_cols self)))"

text \<open>
  The transform as the specification words it: add the stored shift, replace every value
  that is still \<open>\<le> 0\<close> by \<open>1e-6\<close>, then apply \<open>(v ^ lambda - 1) / lambda\<close> when
  \<open>\<bar>lambda\<bar> > 1e-16\<close> and \<open>log v\<close> otherwise. One column, one value.
\<close>

definition boxcox_value_spec :: "real \<Rightarrow> real \<Rightarrow> real \<Rightarrow> real" where
  "boxcox_value_spec shift lam x =
     (let v = x + shift;
          v = (if v \<le> 0 then 1 / 10 ^ 6 else v)
      in if \<bar>lam\<bar> > 1 / 10 ^ 16 then (v powr lam - 1) / lam else ln v)"

section \<open>Class balancers (\<^verbatim>\<open>skutil/preprocessing/balance.py\<close>)\<close>

subsection \<open>Arguments and validation\<close>

text \<open>
  The arguments \<^verbatim>\<open>ratio\<close> and \<^verbatim>\<open>y\<close> are dynamically typed. The argument
  \<open>X\<close> is a data frame with finite cells; class labels are the values of a numeric
  column (\<^verbatim>\<open>is_factor\<close> is false), and \<^verbatim>\<open>as_df\<close> is taken as \<^verbatim>\<open>True\<close>.
\<close>

datatype pyval = PyFloat real | PyInt int | PyStr string | PyNone

text \<open>
  \<^verbatim>\<open>validate_is_pd(X, cols, warn=False)\<close> of \<^verbatim>\<open>skutil/utils/util.py\<close>, called on a
  data frame with the keyword arguments named in \<open>keywords\<close>. Python refuses a call
  with a keyword the function does not declare. For a frame the function answers with
  a copy of the frame and the list of columns (\<^verbatim>\<open>None\<close> for none or an empty one).
\<close>

definition validate_is_pd ::
  "'a frame \<Rightarrow> string list option \<Rightarrow> string list \<Rightarrow> error + ('a frame \<times> string list option)" where
  "validate_is_pd X cols keywords =
     (if \<not> list_all (\<lambda>kw. kw = ''warn'') keywords then Inl TypeError
      else Inr (X, case cols of None \<Rightarrow> None | Some cs \<Rightarrow> if cs = [] then None else Some cs))"

definition validate_ratio :: "pyval \<Rightarrow> error + real" where
  "validate_ratio ratio =
     (case ratio of
        PyFloat r \<Rightarrow> if r \<le> 0 \<or> r > 1 then Inl InvalidRatio else Inr r
      | _ \<Rightarrow> Inl InvalidRatio)"

definition validate_target :: "pyval \<Rightarrow> error + string" where
  "validate_target y =
     (case y of
        PyStr s \<Rightarrow> if s = [] then Inl InvalidTarget else Inr s
      | _ \<Rightarrow> Inl InvalidTarget)"

text \<open>\<^verbatim>\<open>BalancerMixin._max_classes\<close>\<close>

definition max_classes :: nat where
  "max_classes = 20"

definition validate_num_classes :: "(real \<times> nat) list \<Rightarrow> error + nat" where
  "validate_num_classes cts =
     (let mc = max_classes; n_classes = length cts in
      if n_classes > mc then Inl (TooManyClasses mc n_classes)
      else if n_classes < 2 then Inl TooFewClasses
      else Inr n_classes)"

text \<open>
  \<^verbatim>\<open>X[y].value_counts()\<close>: the distinct labels with their counts, the most frequent
  first; \<^verbatim>\<open>.sort_values(ascending=True)\<close> orders them by count, ascending. The order
  pandas gives to labels of equal count is implementation-defined; the model takes
  that of a stable sort.
\<close>

definition value_counts :: "real list \<Rightarrow> (real \<times> nat) list" where
  "value_counts col = rev (sort_key snd (map (\<lambda>l. (l, count_list col l)) (remdups col)))"

definition sort_values :: "(real \<times> nat) list \<Rightarrow> (real \<times> nat) list" where
  "sort_values cts = sort_key snd cts"

text \<open>
  \<^verbatim>\<open>cts[label]\<close> on the dictionary of counts. The source looks up labels of
  \<^verbatim>\<open>index\<close> only, which are the keys of the dictionary; for any other key the
  model answers \<open>0\<close>.
\<close>

definition cts_get :: "(real \<times> nat) list \<Rightarrow> real \<Rightarrow> nat" where
  "cts_get cts l = (case map_of cts l of Some n \<Rightarrow> n | None \<Rightarrow> 0)"

text \<open>
  \<^verbatim>\<open>_validate_x_y_ratio(X, y, ratio)\<close>; the result is the tuple
  \<open>(cts, index, target_col, n_classes, needs_balancing)\<close>.
\<close>

definition validate_x_y_ratio ::
  "real frame \<Rightarrow> pyval \<Rightarrow> pyval \<Rightarrow>
     error + ((real \<times> nat) list \<times> real list \<times> real list \<times> nat \<times> bool)" where
  "validate_x_y_ratio X y ratio =
     (case validate_ratio ratio of
        Inl e \<Rightarrow> Inl e
      | Inr ratio \<Rightarrow>
     (case validate_target y of
        Inl e \<Rightarrow> Inl e
      | Inr y \<Rightarrow>
     (case df_get X y of
        Inl e \<Rightarrow> Inl e
      | Inr col \<Rightarrow>
          (let cts = sort_values (value_counts col) in
           case validate_num_classes cts of
             Inl e \<Rightarrow> Inl e
           | Inr n_classes \<Rightarrow>
               (let needs_balancing = (fdiv (real (snd (hd cts))) (real (snd (last cts))) < ratio)
                in Inr (cts, map fst cts, col, n_classes, needs_balancing))))))"

subsection \<open>Random draws\<close>

text \<open>
  NumPy's global random state is an explicit stream of raw draws, threaded through the
  calls in program order. Statements about "every random draw" quantify over the stream.
\<close>

type_synonym rng = "nat \<Rightarrow> nat"

definition rng_tail :: "rng \<Rightarrow> rng" where
  "rng_tail g = (\<lambda>i. g (Suc i))"

text \<open>\<open>size\<close> draws from \<open>a\<close> with replacement.\<close>

fun draw_with :: "rng \<Rightarrow> 'a list \<Rightarrow> nat \<Rightarrow> 'a list \<times> rng" where
  "draw_with g a 0 = ([], g)"
| "draw_with g a (Suc n) =
     (let (xs, g') = draw_with (rng_tail g) a n
      in (a ! (g 0 mod length a) # xs, g'))"

text \<open>\<open>size\<close> draws from \<open>a\<close> without replacement: a drawn position leaves the population.\<close>

fun draw_without :: "rng \<Rightarrow> 'a list \<Rightarrow> nat \<Rightarrow> 'a list \<times> rng" where
  "draw_without g a 0 = ([], g)"
| "draw_without g a (Suc n) =
     (let i = g 0 mod length a;
          (xs, g') = draw_without (rng_tail g) (take i a @ drop (Suc i) a) n
      in (a ! i # xs, g'))"

text \<open>\<^verbatim>\<open>numpy.random.choice(a, size, replace=replace)\<close>\<close>

definition choice :: "rng \<Rightarrow> 'a list \<Rightarrow> nat \<Rightarrow> bool \<Rightarrow> error + ('a list \<times> rng)" where
  "choice g a size' replace =
     (if a = [] then Inl ChoiceError
      else if replace then Inr (draw_with g a size')
      else if size' > length a then Inl ChoiceError
      else Inr (draw_without g a size'))"

text \<open>\<^verbatim>\<open>numpy.random.permutation(x)\<close>\<close>

definition permutation :: "rng \<Rightarrow> 'a list \<Rightarrow> 'a list \<times> rng" where
  "permutation g x = draw_without g x (length x)"

subsection \<open>Partitioners\<close>

text \<open>
  Python's \<^verbatim>\<open>int(x)\<close> on a float: truncation towards zero. The floats it is
  applied to are float64 products, rounded by \<open>fmul\<close>.
\<close>

definition py_int :: "real \<Rightarrow> int" where
  "py_int x = (if 0 \<le> x then \<lfloor>x\<rfloor> else \<lceil>x\<rceil>)"

definition default_indices :: "rng \<Rightarrow> nat \<Rightarrow> bool \<Rightarrow> nat list \<times> rng" where
  "default_indices g len shuffle =
     (let x = [0..<len] in if \<not> shuffle then (x, g) else permutation g x)"

text \<open>
  The state of a partitioner object after \<^verbatim>\<open>__init__\<close>; \<^verbatim>\<open>self.ratio\<close> holds the
  validated float.
\<close>

record partitioner =
  self_X :: "real frame"
  self_y :: string
  self_ratio :: real
  self_cts :: "(real \<times> nat) list"
  self_index :: "real list"
  self_target_col :: "real list"
  self_needs_balancing :: bool

text \<open>\<^verbatim>\<open>_BaseBalancePartitioner.__init__\<close>: construction runs the validation.\<close>

definition partitioner_init :: "real frame \<Rightarrow> pyval \<Rightarrow> pyval \<Rightarrow> error + partitioner" where
  "partitioner_init X y_name ratio =
     (case validate_x_y_ratio X y_name ratio of
        Inl e \<Rightarrow> Inl e
      | Inr (cts, index, target_col, n_classes, needs_balancing) \<Rightarrow>
          Inr \<lparr>self_X = X,
               self_y = (case y_name of PyStr s \<Rightarrow> s | _ \<Rightarrow> []),
               self_ratio = (case ratio of PyFloat r \<Rightarrow> r | _ \<Rightarrow> 0),
               self_cts = cts, self_index = index, self_target_col = target_col,
               self_needs_balancing = needs_balancing\<rparr>)"

text \<open>
  The loop over \<^verbatim>\<open>self.index\<close> of the oversampling partitioner. The state is the list
  of \<^verbatim>\<open>SamplingWarning\<close>s issued so far (the labels they name), the accumulated
  \<^verbatim>\<open>sample_indices\<close> and the random stream.
\<close>

fun over_loop ::
  "partitioner \<Rightarrow> real \<Rightarrow> int \<Rightarrow> nat list \<Rightarrow> real list \<Rightarrow> real list \<times> nat list \<times> rng
     \<Rightarrow> error + (real list \<times> nat list \<times> rng)" where
  "over_loop self majority n_required all_indices [] st = Inr st"
| "over_loop self majority n_required all_indices (minority # rest) (warns, sample_indices, g) =
     (if minority = majority then Inr (warns, sample_indices, g)
      else
        let min_ct = cts_get (self_cts self) minority;
            warns = (if min_ct = 1 then warns @ [minority] else warns);
            current_ratio = fdiv (real min_ct) (real (cts_get (self_cts self) majority))
        in if current_ratio \<ge> self_ratio self
           then over_loop self majority n_required all_indices rest (warns, sample_indices, g)
           else
             let n_samples = n_required - int min_ct in
             if n_samples \<le> 0
             then over_loop self majority n_required all_indices rest (warns, sample_indices, g)
             else
               let minority_recs = filter (\<lambda>i. self_target_col self ! i = minority) all_indices in
               case choice g minority_recs (nat n_samples) True of
                 Inl e \<Rightarrow> Inl e
               | Inr (idcs, g') \<Rightarrow>
                   over_loop self majority n_required all_indices rest
                     (warns, sample_indices @ idcs, g'))"

text \<open>
  \<^verbatim>\<open>_OversamplingBalancePartitioner._get_sample_indices(shuffle)\<close>: the warnings
  issued, the row positions, and the random stream afterwards.
\<close>

definition over_get_sample_indices ::
  "partitioner \<Rightarrow> bool \<Rightarrow> rng \<Rightarrow> error + (real list \<times> nat list \<times> rng)" where
  "over_get_sample_indices self shuffle g =
     (if \<not> self_needs_balancing self then
        (let (out, g') = default_indices g (nrows (self_X self)) shuffle in Inr ([], out, g'))
      else
        let cts = self_cts self;
            ratio = self_ratio self;
            majority = last (self_index self);
            n_required = max 1 (py_int (fmul ratio (real (cts_get cts majority))));
            all_indices = [0..<nrows (self_X self)]
        in case over_loop self majority n_required all_indices (self_index self) ([], [], g) of
             Inl e \<Rightarrow> Inl e
           | Inr (warns, sample_indices, g1) \<Rightarrow>
               (let all_indices = all_indices @ sample_indices in
                if \<not> shuffle then Inr (warns, sort all_indices, g1)
                else (let (out, g2) = permutation g1 all_indices in Inr (warns, out, g2))))"

text \<open>\<^verbatim>\<open>_UndersamplingBalancePartitioner._get_sample_indices(shuffle)\<close>\<close>

definition under_get_sample_indices ::
  "partitioner \<Rightarrow> bool \<Rightarrow> rng \<Rightarrow> error + (real list \<times> nat list \<times> rng)" where
  "under_get_sample_indices self shuffle g =
     (if \<not> self_needs_balancing self then
        (let (out, g') = default_indices g (nrows (self_X self)) shuffle in Inr ([], out, g'))
      else
        let cts = self_cts self;
            ratio = self_ratio self;
            majority = last (self_index self);
            next_most = self_index self ! (length (self_index self) - 2);
            n_required = py_int (fmul (fdiv 1 ratio) (real (cts_get cts next_most)));
            all_indices = [0..<nrows (self_X self)]
        in if int (cts_get cts majority) \<le> n_required then Inr ([], sort all_indices, g)
           else
             let target_col = self_target_col self;
                 majority_recs = filter (\<lambda>i. target_col ! i = majority) all_indices in
             case choice g majority_recs (nat n_required) False of
               Inl e \<Rightarrow> Inl e
             | Inr (idcs, g1) \<Rightarrow>
                 (let minorities = filter (\<lambda>i. target_col ! i \<noteq> majority) all_indices @ idcs in
                  if \<not> shuffle then Inr ([], sort minorities, g1)
                  else (let (out, g2) = permutation g1 minorities in Inr ([], out, g2))))"

datatype partitioner_class = OversamplingBalancePartitioner | UndersamplingBalancePartitioner

definition get_indices ::
  "partitioner_class \<Rightarrow> partitioner \<Rightarrow> bool \<Rightarrow> rng \<Rightarrow> error + (real list \<times> nat list \<times> rng)" where
  "get_indices cls self shuffle g =
     (case cls of
        OversamplingBalancePartitioner \<Rightarrow> over_get_sample_indices self shuffle g
      | UndersamplingBalancePartitioner \<Rightarrow> under_get_sample_indices self shuffle g)"

subsection \<open>Oversampling and undersampling balancers\<close>

text \<open>\<^verbatim>\<open>X.iloc[idx]\<close>: the rows at the given positions, in that order.\<close>

definition df_iloc :: "'a frame \<Rightarrow> nat list \<Rightarrow> error + 'a frame" where
  "df_iloc X idx =
     (if list_all (\<lambda>i. i < nrows X) idx
      then Inr (map (\<lambda>(nm, c). (nm, map (\<lambda>i. c ! i) idx)) X)
      else Inl IndexError)"

text \<open>
  \<^verbatim>\<open>_over_under_balance\<close>: the warnings issued, the balanced frame and the random
  stream afterwards.
\<close>

definition over_under_balance ::
  "real frame \<Rightarrow> pyval \<Rightarrow> pyval \<Rightarrow> bool \<Rightarrow> partitioner_class \<Rightarrow> rng
     \<Rightarrow> error + (real list \<times> real frame \<times> rng)" where
  "over_under_balance X y ratio shuffle cls g =
     (case validate_is_pd X None [] of
        Inl e \<Rightarrow> Inl e
      | Inr (X, _) \<Rightarrow>
     (case partitioner_init X y ratio of
        Inl e \<Rightarrow> Inl e
      | Inr partitioner \<Rightarrow>
          (case get_indices cls partitioner shuffle g of
             Inl e \<Rightarrow> Inl e
           | Inr (warns, idx, g') \<Rightarrow>
               (case df_iloc X idx of
                  Inl e \<Rightarrow> Inl e
                | Inr balanced \<Rightarrow> Inr (warns, balanced, g')))))"

text \<open>The balancer objects: their fields are the arguments \<open>y\<close>, \<open>ratio\<close> and \<open>shuffle\<close>.\<close>

definition OversamplingClassBalancer_balance ::
  "pyval \<Rightarrow> pyval \<Rightarrow> bool \<Rightarrow> real frame \<Rightarrow> rng \<Rightarrow> error + (real list \<times> real frame \<times> rng)" where
  "OversamplingClassBalancer_balance y ratio shuffle X g =
     over_under_balance X y ratio shuffle OversamplingBalancePartitioner g"

definition UndersamplingClassBalancer_balance ::
  "pyval \<Rightarrow> pyval \<Rightarrow> bool \<Rightarrow> real frame \<Rightarrow> rng \<Rightarrow> error + (real list \<times> real frame \<times> rng)" where
  "UndersamplingClassBalancer_balance y ratio shuffle X g =
     over_under_balance X y ratio shuffle UndersamplingBalancePartitioner g"

text \<open>The class counts of a frame: how many rows carry the label \<open>l\<close> in column \<open>y\<close>.\<close>

definition class_count :: "real frame \<Rightarrow> string \<Rightarrow> real \<Rightarrow> nat" where
  "class_count X y l = (case map_of X y of None \<Rightarrow> 0 | Some c \<Rightarrow> count_list c l)"

subsection \<open>Quantities used in the statements\<close>

text \<open>
  The number of rows the oversampling loop (and the SMOTE loop) draws for a minority
  label: none when the label already meets the ratio or already has \<open>n_required\<close> rows,
  and \<open>n_required - count\<close> otherwise.
\<close>

definition n_samples_for :: "(real \<times> nat) list \<Rightarrow> real \<Rightarrow> real \<Rightarrow> int \<Rightarrow> real \<Rightarrow> nat" where
  "n_samples_for cts ratio majority n_required minority =
     (if fdiv (real (cts_get cts minority)) (real (cts_get cts majority)) \<ge> ratio then 0
      else nat (n_required - int (cts_get cts minority)))"

subsection \<open>SMOTE balancer\<close>

text \<open>
  The nearest-neighbour search is an external collaborator
  (\<^verbatim>\<open>sklearn.neighbors.NearestNeighbors\<close>) and a parameter of the model:
  \<open>nn k pts\<close> stands for \<^verbatim>\<open>NearestNeighbors(n_neighbors=k).fit(pts).kneighbors()[1]\<close>,
  the positions of the \<open>k\<close> nearest other rows for each row of \<open>pts\<close>, or its error.
  Synthetic cells are means of selections and so may be \<^verbatim>\<open>NaN\<close>; the working frame
  has optional cells.
\<close>

type_synonym neighbors = "nat \<Rightarrow> real option list list \<Rightarrow> error + nat list list"

text \<open>The rows of a frame, as the matrix handed to \<^verbatim>\<open>fit\<close>.\<close>

definition frame_rows :: "'a frame \<Rightarrow> 'a list list" where
  "frame_rows X = map (\<lambda>i. map (\<lambda>(nm, c). c ! i) X) [0..<nrows X]"

text \<open>\<^verbatim>\<open>Series.mean()\<close>: the mean of the cells that are not \<^verbatim>\<open>NaN\<close>, \<^verbatim>\<open>NaN\<close> if none.\<close>

definition pd_mean :: "real option list \<Rightarrow> real option" where
  "pd_mean vs =
     (let fin = concat (map (\<lambda>v. case v of None \<Rightarrow> [] | Some x \<Rightarrow> [x]) vs)
      in if fin = [] then None else Some (sum_list fin / real (length fin)))"

text \<open>
  \<^verbatim>\<open>for neighbors in nn.kneighbors()[1]: mn = pts.iloc[neighbors].mean(); ...\<close>
  followed by \<^verbatim>\<open>DataFrame.from_records(data=synthetics_pts, columns=pts.columns)\<close>:
  the frame of the synthetic points, column by column.
\<close>

definition synthetic_frame :: "real option frame \<Rightarrow> nat list list \<Rightarrow> error + real option frame" where
  "synthetic_frame pts nbrs =
     (if list_all (list_all (\<lambda>j. j < nrows pts)) nbrs
      then Inr (map (\<lambda>(nm, c). (nm, map (\<lambda>neighbors. pd_mean (map (\<lambda>j. c ! j) neighbors)) nbrs)) pts)
      else Inl IndexError)"

text \<open>\<^verbatim>\<open>pd.concat([X, syn_frame])\<close> for frames with the same columns.\<close>

definition df_concat :: "'a frame \<Rightarrow> 'a frame \<Rightarrow> 'a frame" where
  "df_concat X Y = map (\<lambda>(nm, c). (nm, c @ (case map_of Y nm of None \<Rightarrow> [] | Some d \<Rightarrow> d))) X"

text \<open>
  The loop over \<^verbatim>\<open>index\<close> of \<^verbatim>\<open>SMOTEClassBalancer.balance\<close>. The state is the
  growing frame \<open>X\<close> and the random stream. The rows selected by
  \<^verbatim>\<open>X[X[y] == minority]\<close> are original rows (synthetic rows carry the labels of
  earlier iterations), whose index labels are their positions. A frame \<open>pts\<close>
  without feature columns is rejected by \<^verbatim>\<open>fit\<close>.
\<close>

fun smote_loop ::
  "neighbors \<Rightarrow> nat \<Rightarrow> string \<Rightarrow> real \<Rightarrow> (real \<times> nat) list \<Rightarrow> real \<Rightarrow> int \<Rightarrow> real list
     \<Rightarrow> real option frame \<times> rng \<Rightarrow> error + (real option frame \<times> rng)" where
  "smote_loop nn k y ratio cts majority n_required [] st = Inr st"
| "smote_loop nn k y ratio cts majority n_required (minority # rest) (X, g) =
     (if minority = majority then Inr (X, g)
      else
        let min_ct = cts_get cts minority in
        if min_ct = 1 then Inl (SingleObservation minority)
        else
          let current_ratio = fdiv (real min_ct) (real (cts_get cts majority)) in
          if current_ratio \<ge> ratio
          then smote_loop nn k y ratio cts majority n_required rest (X, g)
          else
            let n_samples = n_required - int min_ct in
            if n_samples \<le> 0
            then smote_loop nn k y ratio cts majority n_required rest (X, g)
            else
              case df_get X y of
                Inl e \<Rightarrow> Inl e
              | Inr col \<Rightarrow>
                  let minority_recs = filter (\<lambda>i. col ! i = Some minority) [0..<nrows X];
                      replace = (nat n_samples > length minority_recs) in
                  case choice g minority_recs (nat n_samples) replace of
                    Inl e \<Rightarrow> Inl e
                  | Inr (idcs, g') \<Rightarrow>
                      (case df_iloc X idcs of
                         Inl e \<Rightarrow> Inl e
                       | Inr sel \<Rightarrow>
                           let pts = filter (\<lambda>(nm, c). nm \<noteq> y) sel in
                           if pts = [] then Inl NeighborsError
                           else
                             case nn k (frame_rows pts) of
                               Inl e \<Rightarrow> Inl e
                             | Inr nbrs \<Rightarrow>
                                 (case synthetic_frame pts nbrs of
                                    Inl e \<Rightarrow> Inl e
                                  | Inr syn_frame \<Rightarrow>
                                      let syn_frame = df_set syn_frame y
                                            (replicate (nrows syn_frame) (Some minority)) in
                                      case df_select syn_frame (map fst X) of
                                        Inl e \<Rightarrow> Inl e
                                      | Inr syn_frame \<Rightarrow>
                                          smote_loop nn k y ratio cts majority n_required rest
                                            (df_concat X syn_frame, g'))))"

text \<open>
  Modelled from the spec: \<^verbatim>\<open>shuffle_dataframe\<close> of \<^verbatim>\<open>skutil.utils\<close> is not among
  the sources; the specification has the final data set "shuffled per configuration",
  taken here as its rows in a random permutation.
\<close>

definition shuffle_dataframe :: "rng \<Rightarrow> 'a frame \<Rightarrow> 'a frame \<times> rng" where
  "shuffle_dataframe g X =
     (let (idx, g') = permutation g [0..<nrows X]
      in (map (\<lambda>(nm, c). (nm, map (\<lambda>i. c ! i) idx)) X, g'))"

text \<open>
  The statements of \<^verbatim>\<open>SMOTEClassBalancer.balance\<close> that follow its first one
  (\<^verbatim>\<open>balance.py\<close>, from the index reset to the return), on the frame \<open>X\<close> that the
  first statement hands on.
\<close>

definition SMOTE_balance_rest ::
  "neighbors \<Rightarrow> nat \<Rightarrow> pyval \<Rightarrow> pyval \<Rightarrow> bool \<Rightarrow> real frame \<Rightarrow> rng
     \<Rightarrow> error + (real option frame \<times> rng)" where
  "SMOTE_balance_rest nn k y ratio shuffle X g =
     (case validate_x_y_ratio X y ratio of
        Inl e \<Rightarrow> Inl e
      | Inr (cts, index, target_col, n_classes, needs_balancing) \<Rightarrow>
          (let X0 = map (\<lambda>(nm, c). (nm, map Some c)) X;
               y_name = (case y of PyStr s \<Rightarrow> s | _ \<Rightarrow> []);
               ratio_value = (case ratio of PyFloat r \<Rightarrow> r | _ \<Rightarrow> 0)
           in if \<not> needs_balancing
              then Inr (if \<not> shuffle then (X0, g) else shuffle_dataframe g X0)
              else
                let majority = last index;
                    n_required = max 1 (py_int (fmul ratio_value (real (cts_get cts majority))))
                in case smote_loop nn k y_name ratio_value cts majority n_required index (X0, g) of
                     Inl e \<Rightarrow> Inl e
                   | Inr (X1, g1) \<Rightarrow>
                       Inr (if \<not> shuffle then (X1, g1) else shuffle_dataframe g1 X1)))"

text \<open>
  \<^verbatim>\<open>SMOTEClassBalancer(y, ratio, shuffle, k).balance(X)\<close>. Its first statement is
  \<^verbatim>\<open>validate_is_pd(X, None, assert_all_finite=True)\<close>, a call with a keyword that
  \<^verbatim>\<open>validate_is_pd\<close> does not declare.
\<close>

definition SMOTEClassBalancer_balance ::
  "neighbors \<Rightarrow> nat \<Rightarrow> pyval \<Rightarrow> pyval \<Rightarrow> bool \<Rightarrow> real frame \<Rightarrow> rng
     \<Rightarrow> error + (real option frame \<times> rng)" where
  "SMOTEClassBalancer_balance nn k y ratio shuffle X g =
     (case validate_is_pd X None [''assert_all_finite''] of
        Inl e \<Rightarrow> Inl e
      | Inr (X, _) \<Rightarrow> SMOTE_balance_rest nn k y ratio shuffle X g)"




subsection \<open>The documented end-to-end scenarios\<close>

text \<open>
  \<^verbatim>\<open>pd.DataFrame(np.concatenate([np.zeros(100), np.ones(30), np.ones(25)*2]), columns=['A'])\<close>
  and the frame with 150 zeros, 30 ones and 10 twos, from the docstrings of the
  oversampling and the undersampling balancer.
\<close>

definition X_over :: "real frame" where
  "X_over = [(''A'', replicate 100 0 @ replicate 30 1 @ replicate 25 2)]"

definition X_under :: "real frame" where
  "X_under = [(''A'', replicate 150 0 @ replicate 30 1 @ replicate 10 2)]"

text \<open>
  Two small frames with a feature column \<open>x\<close> and a label column \<open>y\<close>: one whose
  class 1 has a single row, and one with ten rows of class 0 and four of class 1.
\<close>

definition X_single :: "real frame" where
  "X_single = [(''x'', [1, 2, 3, 4, 5, 6, 7]), (''y'', [0, 0, 0, 0, 0, 0, 1])]"


section \<open>Properties of the Yeo-Johnson transform\<close>

lemma ZERO_pos: "0 < ZERO" and ZERO_le: "ZERO \<le> 1 / 10 ^ 16"
  by (simp_all add: ZERO_def)

lemma abs_scaled_less_one:
  fixes d c :: real
  assumes "0 < c" and "\<bar>d\<bar> < 1 / c"
  shows "\<bar>d * c\<bar> < 1"
proof -
  have "\<bar>d * c\<bar> = \<bar>d\<bar> * c" using assms(1) by (simp add: abs_mult)
  also have "\<dots> < 1 / c * c" using assms by (intro mult_strict_right_mono)
  also have "\<dots> = 1" using assms(1) by simp
  finally show ?thesis .
qed

text \<open>No float64 value other than 2 lies within \<open>1e-16\<close> of 2.\<close>

lemma float64_near_two:
  assumes f: "float64 lam" and near: "\<bar>lam - 2\<bar> \<le> 1 / 10 ^ 16"
  shows "lam = 2"
proof -
  from f obtain m e :: int where m: "\<bar>m\<bar> < 2 ^ 53"
    and lam: "lam = real_of_int m * 2 powr real_of_int e"
    by (auto simp: float64_def)
  from near have close: "\<bar>lam - 2\<bar> < 1 / 2 ^ 52" by simp
  show ?thesis
  proof (cases "- 52 \<le> e")
    case True
    define n where "n = nat (e + 52)"
    from True have e: "real_of_int e = real n - 52" by (simp add: n_def)
    have "(2::real) powr real_of_int e = 2 ^ n / 2 ^ 52"
      unfolding e by (simp add: powr_diff powr_realpow)
    with lam have "lam * 2 ^ 52 = real_of_int (m * 2 ^ n)" by simp
    then have "(lam - 2) * 2 ^ 52 = real_of_int (m * 2 ^ n - 2 ^ 53)" by (simp add: algebra_simps)
    moreover have "\<bar>(lam - 2) * 2 ^ 52\<bar> < 1"
      using close by (intro abs_scaled_less_one) simp_all
    ultimately have "\<bar>real_of_int (m * 2 ^ n - 2 ^ 53)\<bar> < 1" by simp
    then have "m * 2 ^ n - 2 ^ 53 = 0" by linarith
    then have "real_of_int (m * 2 ^ n - 2 ^ 53) = 0" by (simp only: of_int_0)
    with \<open>(lam - 2) * 2 ^ 52 = real_of_int (m * 2 ^ n - 2 ^ 53)\<close>
    have "(lam - 2) * 2 ^ 52 = 0" by (simp only:)
    then show ?thesis by simp
  next
    case False
    then have "real_of_int e \<le> - 53" by linarith
    then have "(2::real) powr real_of_int e \<le> 2 powr (- 53)" by simp
    also have "\<dots> = 1 / 2 ^ 53" by (simp add: powr_neg_numeral)
    finally have p: "(2::real) powr real_of_int e \<le> 1 / 2 ^ 53" .
    from m have "\<bar>real_of_int m\<bar> < 2 ^ 53"
      by (metis of_int_abs of_int_less_numeral_power_cancel_iff)
    then have "\<bar>real_of_int m\<bar> * 2 powr real_of_int e < 2 ^ 53 * (1 / 2 ^ 53)"
      using p by (intro mult_less_le_imp_less) simp_all
    then have "\<bar>lam\<bar> < 1" by (simp add: lam abs_mult)
    with close show ?thesis by (simp add: abs_if split: if_splits)
  qed
qed

text \<open>
  No float64 value lies above \<^verbatim>\<open>ZERO\<close> and at most at \<open>10 ^ -16\<close>: on float64
  values the test against the constant is the test against \<open>10 ^ -16\<close>.
\<close>

lemma float64_near_zero:
  assumes f: "float64 lam" and near: "\<bar>lam\<bar> \<le> 1 / 10 ^ 16"
  shows "\<bar>lam\<bar> \<le> ZERO"
proof (rule ccontr)
  assume "\<not> \<bar>lam\<bar> \<le> ZERO"
  then have above: "ZERO < \<bar>lam\<bar>" by simp
  from f obtain m e :: int where m: "\<bar>m\<bar> < 2 ^ 53"
    and lam: "lam = real_of_int m * 2 powr real_of_int e"
    by (auto simp: float64_def)
  have abs_lam: "\<bar>lam\<bar> = real_of_int \<bar>m\<bar> * 2 powr real_of_int e"
    by (simp add: lam abs_mult)
  show False
  proof (cases "- 106 \<le> e")
    case True
    define n where "n = nat (e + 106)"
    from True have e: "real_of_int e = real n - 106" by (simp add: n_def)
    have "(2::real) powr real_of_int e = 2 ^ n / 2 ^ 106"
      unfolding e by (simp add: powr_diff powr_realpow)
    with abs_lam have scaled: "\<bar>lam\<bar> * 2 ^ 106 = real_of_int (\<bar>m\<bar> * 2 ^ n)" by simp
    have z: "ZERO * 2 ^ 106 = real_of_int 8112963841460668" by (simp add: ZERO_def)
    have t: "1 / 10 ^ 16 * 2 ^ 106 < real_of_int 8112963841460669" by simp
    from above have "ZERO * 2 ^ 106 < \<bar>lam\<bar> * 2 ^ 106" by (intro mult_strict_right_mono) simp_all
    then have lo: "real_of_int 8112963841460668 < real_of_int (\<bar>m\<bar> * 2 ^ n)"
      by (simp only: z scaled)
    from near have "\<bar>lam\<bar> * 2 ^ 106 \<le> 1 / 10 ^ 16 * 2 ^ 106" by (intro mult_right_mono) simp_all
    from this t have "\<bar>lam\<bar> * 2 ^ 106 < real_of_int 8112963841460669" by (rule le_less_trans)
    then have hi: "real_of_int (\<bar>m\<bar> * 2 ^ n) < real_of_int 8112963841460669"
      by (simp only: scaled)
    from lo hi have "8112963841460668 < \<bar>m\<bar> * 2 ^ n" "\<bar>m\<bar> * 2 ^ n < 8112963841460669"
      by (simp_all only: of_int_less_iff)
    then show False by linarith
  next
    case False
    then have "real_of_int e \<le> - 107" by linarith
    then have "(2::real) powr real_of_int e \<le> 2 powr (- 107)" by simp
    also have "\<dots> = 1 / 2 ^ 107" by (simp add: powr_neg_numeral)
    finally have p: "(2::real) powr real_of_int e \<le> 1 / 2 ^ 107" .
    from m have "real_of_int \<bar>m\<bar> < 2 ^ 53"
      by (metis of_int_less_numeral_power_cancel_iff)
    then have "real_of_int \<bar>m\<bar> * 2 powr real_of_int e < 2 ^ 53 * (1 / 2 ^ 107)"
      using p by (intro mult_less_le_imp_less) simp_all
    then have "\<bar>lam\<bar> < 1 / 2 ^ 54" by (simp add: abs_lam)
    with above show False by (simp add: ZERO_def)
  qed
qed

text \<open>
  Claim C1: for every \<open>x\<close> and every float64 \<open>lambda\<close>, the transform is the piecewise
  rule in which both "\<open>lambda\<close> equals zero" and "\<open>lambda\<close> equals two" are the
  threshold tests \<open>\<bar>lambda - c\<bar> \<le> 1e-16\<close>. The source writes the second test as
  \<^verbatim>\<open>lam == 2.0\<close>; on float64 values the two tests select the same branch.
\<close>

theorem yj_trans_single_x_threshold_rule:
  assumes "float64 lam"
  shows "yj_trans_single_x x lam = yj_threshold_both x lam"
proof -
  have two: "\<bar>lam - 2\<bar> \<le> 1 / 10 ^ 16 \<longleftrightarrow> lam = 2"
    using float64_near_two [OF assms] by auto
  have zero: "\<bar>lam\<bar> \<le> 1 / 10 ^ 16 \<longleftrightarrow> \<bar>lam\<bar> \<le> ZERO"
    using float64_near_zero [OF assms] ZERO_le by linarith
  show ?thesis
    unfolding yj_trans_single_x_def yj_threshold_both_def eqls_def Let_def diff_0_right two zero
    by (simp add: minus_divide_left)
qed

lemma float64_two: "float64 2"
  unfolding float64_def by (intro exI [of _ 1]) simp

text \<open>The rule at \<open>lambda = 2\<close>, on both sides of \<open>x = 0\<close>.\<close>

theorem yj_trans_single_x_threshold_rule_witness:
  "float64 2 \<and> yj_trans_single_x (- 1) 2 = - ln 2 \<and> yj_trans_single_x 3 2 = 15 / 2"
  using yj_trans_single_x_threshold_rule [OF float64_two, of "- 1"]
    yj_trans_single_x_threshold_rule [OF float64_two, of 3] float64_two
  by (simp add: yj_threshold_both_def)

section \<open>Properties of the Yeo-Johnson log-likelihood\<close>

lemma yj_llf_data_after:
  "snd (yj_llf data lmb) = (if data = [] then data else shifted_up data)"
  by (simp add: yj_llf_def Let_def np_min_def shifted_up_def)

lemma eval_mle_data_after:
  "snd (eval_mle lmb data) = (if data = [] then data else shifted_up data)"
proof -
  have "snd (eval_mle lmb data) = snd (yj_llf data lmb)"
    by (simp add: eval_mle_def split: prod.splits sum.splits)
  then show ?thesis by (simp only: yj_llf_data_after)
qed

lemma shifted_up_example: "shifted_up [- 1, 0, 2] = [1, 2, 4]"
  by (simp add: shifted_up_def ZERO_def)

lemma shifted_up_fixed: "shifted_up [1, 2, 4] = [1, 2, 4]"
  by (simp add: shifted_up_def ZERO_def)

text \<open>
  Claim C4 at the vector \<open>[-1, 0, 2]\<close>: after one evaluation the caller's array holds
  \<open>[1, 2, 4]\<close>, and the second of two evaluations made on the same array works on
  \<open>[1, 2, 4]\<close>, whatever the candidates are. The shift persists.
\<close>

theorem yj_llf_overwrites_data:
  "snd (yj_llf [- 1, 0, 2] lmb) = [1, 2, 4] \<and>
   eval_mle_calls [l1, l2] [- 1, 0, 2] =
     ([fst (eval_mle l1 [- 1, 0, 2]), fst (eval_mle l2 [1, 2, 4])], [1, 2, 4])"
proof -
  have a: "snd (yj_llf [- 1, 0, 2] lmb) = [1, 2, 4]"
    by (simp add: yj_llf_data_after shifted_up_example)
  have b: "snd (eval_mle l1 [- 1, 0, 2]) = [1, 2, 4]"
    by (simp add: eval_mle_data_after shifted_up_example)
  have c: "snd (eval_mle l2 [1, 2, 4]) = [1, 2, 4]"
    by (simp add: eval_mle_data_after shifted_up_fixed)
  have "eval_mle_calls [l1, l2] [- 1, 0, 2] =
     ([fst (eval_mle l1 [- 1, 0, 2]), fst (eval_mle l2 [1, 2, 4])], [1, 2, 4])"
    using b c by (simp add: split_beta Let_def)
  with a show ?thesis by simp
qed

section \<open>Properties of the Box-Cox transform\<close>

lemma truncate_stmt_keeps_frame:
  "truncate_stmt X cols = Inr (X', tmp) \<Longrightarrow> X' = X"
  by (auto simp: truncate_stmt_def Let_def split: sum.splits)

lemma fit_shift_positive_min: "fit_shift 1 = 0"
  by (simp add: fit_shift_def)

lemma BoxCox_transform_at_zero:
  "BoxCox_transform \<lparr>bc_cols = [''a''], bc_lambda = [''a'' \<mapsto> lam], bc_shift = [''a'' \<mapsto> fit_shift 1]\<rparr>
     [(''a'', [0])] =
   Inr [(''a'', [if \<bar>lam\<bar> \<le> ZERO then None else if 0 < lam then Some (- 1 / lam) else None])]"
  by (simp add: BoxCox_transform_def truncate_stmt_def df_get_def dict_get_def df_set_def
      fit_shift_def Let_def transform_y_def eqls_def np_power_def np_log_def ZERO_def)

lemma BoxCox_transform_zero_diverges:
  "BoxCox_transform \<lparr>bc_cols = [''a''], bc_lambda = [''a'' \<mapsto> lam], bc_shift = [''a'' \<mapsto> fit_shift 1]\<rparr>
     [(''a'', [0])] \<noteq> Inr [(''a'', [Some (boxcox_value_spec (fit_shift 1) lam 0)])]"
proof (cases "\<bar>lam\<bar> \<le> ZERO \<or> lam \<le> 0")
  case True
  then show ?thesis by (auto simp: BoxCox_transform_at_zero)
next
  case False
  then have pos: "0 < lam" by simp
  have "boxcox_value_spec (fit_shift 1) lam 0 \<noteq> - 1 / lam"
  proof (cases "\<bar>lam\<bar> > 1 / 10 ^ 16")
    case True
    have p: "0 < (1 / 10 ^ 6) powr lam" by simp
    have "boxcox_value_spec (fit_shift 1) lam 0 = ((1 / 10 ^ 6) powr lam - 1) / lam"
      using True by (simp add: boxcox_value_spec_def fit_shift_def)
    moreover have "((1 / 10 ^ 6) powr lam - 1) / lam \<noteq> - 1 / lam"
      using pos p by (simp add: field_simps)
    ultimately show ?thesis by simp
  next
    case small: False
    have v: "boxcox_value_spec (fit_shift 1) lam 0 = ln (1 / 10 ^ 6)"
      using small by (simp add: boxcox_value_spec_def fit_shift_def)
    have "ln (10 ^ 6 :: real) < 10 ^ 6" by (rule ln_less_self) simp
    then have "- (10 ^ 6) < ln (1 / 10 ^ 6 :: real)" by (simp add: ln_div)
    moreover from small pos have "lam \<le> 1 / 10 ^ 16" by simp
    then have "10 ^ 16 \<le> 1 / lam" using pos by (simp add: field_simps)
    ultimately have "- 1 / lam < ln (1 / 10 ^ 6 :: real)" by simp
    with v show ?thesis by simp
  qed
  then show ?thesis using False by (simp add: BoxCox_transform_at_zero)
qed

text \<open>
  Claim C2 at a transformer fitted on a column with minimum \<open>1\<close> (stored shift \<open>0\<close>) and
  \<open>lambda = 1\<close>, transforming the value \<open>0\<close>: the code feeds \<open>0\<close> itself to the power
  formula and returns \<open>-1\<close>, where clamping to \<open>1e-6\<close> first would give \<open>-0.999999\<close>.
\<close>

theorem BoxCox_transform_no_clamp:
  "BoxCox_transform \<lparr>bc_cols = [''a''], bc_lambda = [''a'' \<mapsto> 1], bc_shift = [''a'' \<mapsto> fit_shift 1]\<rparr>
     [(''a'', [0])] = Inr [(''a'', [Some (- 1)])] \<and>
   boxcox_value_spec (fit_shift 1) 1 0 = - (999999 / 1000000)"
  using BoxCox_transform_at_zero [of 1]
  by (simp add: ZERO_def boxcox_value_spec_def fit_shift_def)

section \<open>Properties of validation\<close>

lemma length_counts_table: "length (sort_values (value_counts col)) = card (set col)"
  by (simp add: sort_values_def value_counts_def length_remdups_card_conv)

lemma validate_ratio_outside:
  "r \<le> 0 \<or> 1 < r \<Longrightarrow> validate_ratio (PyFloat r) = Inl InvalidRatio"
  by (simp add: validate_ratio_def)

lemma validate_ratio_inside:
  "validate_ratio ratio = Inr r \<longleftrightarrow> ratio = PyFloat r \<and> 0 < r \<and> r \<le> 1"
  by (auto simp: validate_ratio_def split: pyval.splits if_splits)

lemma validate_num_classes_many:
  "20 < card (set col) \<Longrightarrow>
   validate_num_classes (sort_values (value_counts col)) = Inl (TooManyClasses 20 (card (set col)))"
  by (simp add: validate_num_classes_def max_classes_def length_counts_table Let_def)

lemma validate_num_classes_few:
  "card (set col) < 2 \<Longrightarrow>
   validate_num_classes (sort_values (value_counts col)) = Inl TooFewClasses"
  by (simp add: validate_num_classes_def max_classes_def length_counts_table Let_def)

lemma validate_x_y_ratio_ratio_error:
  "validate_ratio ratio = Inl e \<Longrightarrow> validate_x_y_ratio X y ratio = Inl e"
  by (simp add: validate_x_y_ratio_def)

lemma validate_x_y_ratio_classes_error:
  "validate_ratio ratio = Inr r \<Longrightarrow> validate_target y = Inr s \<Longrightarrow> df_get X s = Inr col \<Longrightarrow>
   validate_num_classes (sort_values (value_counts col)) = Inl e \<Longrightarrow>
   validate_x_y_ratio X y ratio = Inl e"
  by (simp add: validate_x_y_ratio_def Let_def)

text \<open>The frame check passes a frame on when no keyword is given.\<close>

lemma validate_is_pd_plain: "validate_is_pd X None [] = Inr (X, None)"
  by (simp add: validate_is_pd_def)

text \<open>
  The oversampling and the undersampling balancer return the error of the validation;
  so do the statements of the SMOTE balancer that follow its first one.
\<close>

lemma balance_propagates:
  assumes "validate_x_y_ratio X y ratio = Inl e"
  shows "OversamplingClassBalancer_balance y ratio shuffle X g = Inl e"
    and "UndersamplingClassBalancer_balance y ratio shuffle X g = Inl e"
    and "SMOTE_balance_rest nn k y ratio shuffle X g = Inl e"
  using assms
  by (simp_all add: OversamplingClassBalancer_balance_def UndersamplingClassBalancer_balance_def
      SMOTE_balance_rest_def over_under_balance_def partitioner_init_def validate_is_pd_plain)

text \<open>
  The SMOTE balancer itself fails at its first statement, on every input: the call of
  \<^verbatim>\<open>validate_is_pd\<close> carries the keyword \<^verbatim>\<open>assert_all_finite\<close>.
\<close>

lemma SMOTE_balance_type_error:
  "SMOTEClassBalancer_balance nn k y ratio shuffle X g = Inl TypeError"
  by (simp add: SMOTEClassBalancer_balance_def validate_is_pd_def)

text \<open>
  Claim C8 at the ratio \<open>2.0\<close> on the frame \<open>X_single\<close>: the validation fails with the
  invalid-parameter error, and the oversampling and undersampling balancers fail with
  it; the SMOTE balancer fails with the error of its first statement instead, and the
  failure of the validation is not what it reports.
\<close>

theorem smote_skips_validation_failure:
  "validate_x_y_ratio X_single (PyStr ''y'') (PyFloat 2) = Inl InvalidRatio \<and>
   OversamplingClassBalancer_balance (PyStr ''y'') (PyFloat 2) shuffle X_single g = Inl InvalidRatio \<and>
   UndersamplingClassBalancer_balance (PyStr ''y'') (PyFloat 2) shuffle X_single g = Inl InvalidRatio \<and>
   SMOTEClassBalancer_balance nn k (PyStr ''y'') (PyFloat 2) shuffle X_single g = Inl TypeError"
proof -
  have "validate_ratio (PyFloat 2) = Inl InvalidRatio" by (simp add: validate_ratio_def)
  then have v: "validate_x_y_ratio X_single (PyStr ''y'') (PyFloat 2) = Inl InvalidRatio"
    by (rule validate_x_y_ratio_ratio_error)
  from v balance_propagates(1,2) [OF v] SMOTE_balance_type_error show ?thesis by simp
qed

section \<open>float64 rounding at the operands used below\<close>

lemma fl64_eval:
  assumes "2 powr real_of_int e \<le> \<bar>x\<bar>" and "\<bar>x\<bar> < 2 powr (real_of_int e + 1)" and "- 1022 \<le> e"
  shows "fl64 x = real_of_int (round_half_even (x / 2 powr (real_of_int e - 52))) * 2 powr (real_of_int e - 52)"
proof -
  have "0 < (2::real) powr real_of_int e" by simp
  with assms(1) have pos: "0 < \<bar>x\<bar>" by linarith
  then have "\<lfloor>log 2 \<bar>x\<bar>\<rfloor> = e"
    using assms(1,2) by (simp add: floor_log_eq_powr_iff)
  with pos assms(3) show ?thesis by (simp add: fl64_def Let_def max_def)
qed

lemma fmul_half_100: "fmul (1 / 2) 100 = 50"
  using fl64_eval [of 5 50] by (simp add: fmul_def round_half_even_def powr_neg_numeral)


lemma fmul_half_6: "fmul (1 / 2) 6 = 3"
  using fl64_eval [of 1 3] by (simp add: fmul_def round_half_even_def powr_neg_numeral)

lemma fmul_half_3: "fmul (1 / 2) 3 = 3 / 2"
  using fl64_eval [of 0 "3 / 2"] by (simp add: fmul_def round_half_even_def powr_neg_numeral)

lemma fdiv_1_half: "fdiv 1 (1 / 2) = 2"
  using fl64_eval [of 1 2] by (simp add: fdiv_def round_half_even_def powr_neg_numeral)

lemma fmul_2_30: "fmul 2 30 = 60"
  using fl64_eval [of 5 60] by (simp add: fmul_def round_half_even_def powr_neg_numeral)

lemma fmul_2_1: "fmul 2 1 = 2"
  using fl64_eval [of 1 2] by (simp add: fmul_def round_half_even_def powr_neg_numeral)

lemma fdiv_25_100: "fdiv 25 100 = 1 / 4"
  using fl64_eval [of "- 2" "1 / 4"] by (simp add: fdiv_def round_half_even_def powr_neg_numeral)

lemma fdiv_30_100: "fdiv 30 100 < 1 / 2"
  using fl64_eval [of "- 2" "3 / 10"] by (simp add: fdiv_def round_half_even_def powr_neg_numeral)

lemma fdiv_10_150: "fdiv 10 150 < 1 / 2"
  using fl64_eval [of "- 4" "1 / 15"] by (simp add: fdiv_def round_half_even_def powr_neg_numeral)

lemma fdiv_1_3: "fdiv 1 3 < 1 / 2"
  using fl64_eval [of "- 2" "1 / 3"] by (simp add: fdiv_def round_half_even_def powr_neg_numeral)

lemma fdiv_1_6: "fdiv 1 6 < 1 / 2"
  using fl64_eval [of "- 3" "1 / 6"] by (simp add: fdiv_def round_half_even_def powr_neg_numeral)


lemma fdiv_1_1: "fdiv 1 1 = 1"
  using fl64_eval [of 0 1] by (simp add: fdiv_def round_half_even_def powr_neg_numeral)

text \<open>
  The float64 literal \<^verbatim>\<open>0.6\<close> is \<open>5404319552844595 / 2 ^ 53\<close>, below \<open>6 / 10\<close>; its
  float64 products with 5 and with 15 are rounded up to 3 and to 9.
\<close>

lemma fmul_06_5: "py_int (fmul (5404319552844595 / 2 ^ 53) 5) = 3"
  using fl64_eval [of 1 "5404319552844595 / 2 ^ 53 * 5"]
  by (simp add: fmul_def round_half_even_def powr_neg_numeral py_int_def)

lemma fmul_06_15: "py_int (fmul (5404319552844595 / 2 ^ 53) 15) = 9"
  using fl64_eval [of 3 "5404319552844595 / 2 ^ 53 * 15"]
  by (simp add: fmul_def round_half_even_def powr_neg_numeral py_int_def)

section \<open>Properties of the balancers\<close>

subsection \<open>Random draws\<close>

lemma draw_with_length: "length (fst (draw_with g a n)) = n"
  by (induction n arbitrary: g) (simp_all add: split_beta)

lemma draw_with_subset: "a \<noteq> [] \<Longrightarrow> set (fst (draw_with g a n)) \<subseteq> set a"
  by (induction n arbitrary: g) (simp_all add: split_beta)

lemma mset_remove_nth:
  "i < length a \<Longrightarrow> mset a = add_mset (a ! i) (mset (take i a @ drop (Suc i) a))"
proof -
  assume "i < length a"
  then have "a = take i a @ a ! i # drop (Suc i) a" by (rule id_take_nth_drop)
  then have "mset a = mset (take i a @ a ! i # drop (Suc i) a)" by simp
  then show ?thesis by simp
qed

lemma draw_without_length: "length (fst (draw_without g a n)) = n"
  by (induction n arbitrary: g a) (simp_all add: split_beta Let_def)

lemma draw_without_mset: "n \<le> length a \<Longrightarrow> mset (fst (draw_without g a n)) \<subseteq># mset a"
proof (induction n arbitrary: g a)
  case 0
  then show ?case by simp
next
  case (Suc n)
  define i where "i = g 0 mod length a"
  define a' where "a' = take i a @ drop (Suc i) a"
  from Suc.prems have "0 < length a" by (cases a) simp_all
  then have i: "i < length a" unfolding i_def by (rule mod_less_divisor)
  then have len: "length a' = length a - 1" by (simp add: a'_def)
  with Suc.prems have "n \<le> length a'" by simp
  then have "mset (fst (draw_without (rng_tail g) a' n)) \<subseteq># mset a'" by (rule Suc.IH)
  moreover have "mset a = add_mset (a ! i) (mset a')"
    unfolding a'_def using i by (rule mset_remove_nth)
  ultimately show ?case
    by (simp add: split_beta Let_def i_def [symmetric] a'_def [symmetric])
qed

lemma draw_without_all: "mset (fst (draw_without g a (length a))) = mset a"
proof -
  have "mset (fst (draw_without g a (length a))) \<subseteq># mset a"
    by (rule draw_without_mset) simp
  moreover have "size (mset (fst (draw_without g a (length a)))) = size (mset a)"
    by (simp add: draw_without_length)
  ultimately show ?thesis
    using mset_subset_size subset_mset.less_le by fastforce
qed

lemma permutation_mset: "mset (fst (permutation g x)) = mset x"
  by (simp add: permutation_def draw_without_all)

lemma choice_replace_ok:
  "a \<noteq> [] \<Longrightarrow> \<exists>idcs g'. choice g a n True = Inr (idcs, g') \<and> length idcs = n \<and> set idcs \<subseteq> set a"
  using draw_with_length [of g a n] draw_with_subset [of a g n]
  by (cases "draw_with g a n") (simp add: choice_def)

lemma choice_noreplace_ok:
  "a \<noteq> [] \<Longrightarrow> n \<le> length a \<Longrightarrow>
   \<exists>idcs g'. choice g a n False = Inr (idcs, g') \<and> length idcs = n \<and> mset idcs \<subseteq># mset a"
  using draw_without_length [of g a n] draw_without_mset [of n a g]
  by (cases "draw_without g a n") (simp add: choice_def)

subsection \<open>The table of counts\<close>

lemma counts_table_set:
  "set (sort_values (value_counts col)) = (\<lambda>l. (l, count_list col l)) ` set col"
  by (simp add: sort_values_def value_counts_def)

lemma counts_table_keys_mset:
  "mset (map fst (sort_values (value_counts col))) = mset (remdups col)"
proof -
  have "mset (map fst (sort_values (value_counts col))) =
        image_mset fst (mset (sort_values (value_counts col)))" by simp
  also have "\<dots> = image_mset fst (mset (map (\<lambda>l. (l, count_list col l)) (remdups col)))"
    by (simp add: sort_values_def value_counts_def)
  also have "\<dots> = mset (remdups col)"
    by (simp add: image_mset.compositionality comp_def)
  finally show ?thesis .
qed

lemma counts_table_keys_set: "set (map fst (sort_values (value_counts col))) = set col"
  using counts_table_keys_mset [of col] by (metis mset_eq_setD set_remdups)

lemma counts_table_keys_distinct: "distinct (map fst (sort_values (value_counts col)))"
  using counts_table_keys_mset [of col] by (metis distinct_remdups mset_eq_imp_distinct_iff)

lemma counts_table_sorted: "sorted (map snd (sort_values (value_counts col)))"
  by (simp add: sort_values_def)

lemma cts_get_counts_table:
  assumes "l \<in> set col"
  shows "cts_get (sort_values (value_counts col)) l = count_list col l"
proof -
  from assms have "(l, count_list col l) \<in> set (sort_values (value_counts col))"
    by (simp add: counts_table_set)
  with counts_table_keys_distinct [of col]
  have "map_of (sort_values (value_counts col)) l = Some (count_list col l)"
    by (rule map_of_is_SomeI)
  then show ?thesis by (simp add: cts_get_def)
qed

lemma count_list_pos: "l \<in> set col \<Longrightarrow> 0 < count_list col l"
  by (induction col) auto

lemma length_filter_positions:
  "length (filter (\<lambda>i. col ! i = l) [0..<length col]) = count_list col l"
proof (induction col rule: rev_induct)
  case Nil
  then show ?case by simp
next
  case (snoc x xs)
  have "filter (\<lambda>i. (xs @ [x]) ! i = l) [0..<length xs] = filter (\<lambda>i. xs ! i = l) [0..<length xs]"
    by (rule filter_cong) (simp_all add: nth_append)
  with snoc show ?case by simp
qed

lemma positions_nonempty:
  "l \<in> set col \<Longrightarrow> filter (\<lambda>i. col ! i = l) [0..<length col] \<noteq> []"
  using length_filter_positions [of col l] count_list_pos [of l col] by fastforce

subsection \<open>What a successful validation establishes\<close>

lemma rectangular_column: "rectangular X \<Longrightarrow> df_get X s = Inr col \<Longrightarrow> length col = nrows X"
proof -
  assume r: "rectangular X" and d: "df_get X s = Inr col"
  from d have "map_of X s = Some col" by (simp add: df_get_def split: option.splits)
  then have "(s, col) \<in> set X" by (rule map_of_SomeD)
  with r show ?thesis by (auto simp: rectangular_def list_all_iff)
qed

lemma validate_x_y_ratio_Inr:
  assumes "validate_x_y_ratio X y ratio = Inr (cts, index, target_col, n_classes, nb)"
  shows "\<exists>r s. ratio = PyFloat r \<and> 0 < r \<and> r \<le> 1 \<and> y = PyStr s \<and> df_get X s = Inr target_col \<and>
               cts = sort_values (value_counts target_col) \<and> index = map fst cts \<and>
               2 \<le> length cts \<and> length cts \<le> 20 \<and> n_classes = length cts \<and>
               nb = (fdiv (real (snd (hd cts))) (real (snd (last cts))) < r)"
  using assms
  by (auto simp: validate_x_y_ratio_def validate_ratio_def validate_target_def
      validate_num_classes_def max_classes_def Let_def
      split: sum.splits pyval.splits if_splits)

lemma partitioner_init_Inr:
  assumes "partitioner_init X y ratio = Inr self"
  shows "\<exists>r s. ratio = PyFloat r \<and> 0 < r \<and> r \<le> 1 \<and> y = PyStr s \<and>
               df_get X s = Inr (self_target_col self) \<and>
               self_X self = X \<and> self_y self = s \<and> self_ratio self = r \<and>
               self_cts self = sort_values (value_counts (self_target_col self)) \<and>
               self_index self = map fst (self_cts self) \<and>
               2 \<le> length (self_cts self) \<and> length (self_cts self) \<le> 20 \<and>
               self_needs_balancing self =
                 (fdiv (real (snd (hd (self_cts self)))) (real (snd (last (self_cts self)))) < r)"
proof -
  from assms obtain cts index target_col n_classes nb where
    v: "validate_x_y_ratio X y ratio = Inr (cts, index, target_col, n_classes, nb)"
    and s: "self = \<lparr>self_X = X,
               self_y = (case y of PyStr s \<Rightarrow> s | _ \<Rightarrow> []),
               self_ratio = (case ratio of PyFloat r \<Rightarrow> r | _ \<Rightarrow> 0),
               self_cts = cts, self_index = index, self_target_col = target_col,
               self_needs_balancing = nb\<rparr>"
    by (auto simp: partitioner_init_def split: sum.splits)
  from validate_x_y_ratio_Inr [OF v] s show ?thesis by auto
qed

subsection \<open>The partitioners\<close>

lemma filter_label_positions:
  assumes "set idcs \<subseteq> set (filter (\<lambda>i. col ! i = m) all_indices)"
  shows "length (filter (\<lambda>i. col ! i = l) idcs) = (if m = l then length idcs else 0)"
proof -
  from assms have a: "\<forall>i \<in> set idcs. col ! i = m" by auto
  show ?thesis
  proof (cases "m = l")
    case True
    with a have "filter (\<lambda>i. col ! i = l) idcs = idcs" by (simp add: filter_id_conv)
    with True show ?thesis by simp
  next
    case False
    with a have "filter (\<lambda>i. col ! i = l) idcs = []" by (simp add: filter_empty_conv)
    with False show ?thesis by simp
  qed
qed

lemma over_loop_result:
  assumes col: "self_target_col self = col"
    and labels: "set rest \<subseteq> set col"
  shows "\<exists>s g'. over_loop self majority n_required [0..<length col] rest (w0, s0, g) =
           Inr (w0 @ filter (\<lambda>m. cts_get (self_cts self) m = 1) (takeWhile (\<lambda>m. m \<noteq> majority) rest),
                s0 @ s, g') \<and>
         set s \<subseteq> {..<length col} \<and>
         (\<forall>l. length (filter (\<lambda>i. col ! i = l) s) =
              sum_list (map (n_samples_for (self_cts self) (self_ratio self) majority n_required)
                (filter (\<lambda>m. m = l) (takeWhile (\<lambda>m. m \<noteq> majority) rest))))"
  using labels
proof (induction rest arbitrary: w0 s0 g)
  case Nil
  then show ?case by simp
next
  case (Cons m ms)
  let ?need = "n_samples_for (self_cts self) (self_ratio self) majority n_required"
  let ?W = "\<lambda>xs. filter (\<lambda>m. cts_get (self_cts self) m = 1) (takeWhile (\<lambda>m. m \<noteq> majority) xs)"
  let ?C = "\<lambda>xs l. sum_list (map ?need (filter (\<lambda>m. m = l) (takeWhile (\<lambda>m. m \<noteq> majority) xs)))"
  from Cons.prems have m_in: "m \<in> set col" and ms_in: "set ms \<subseteq> set col" by simp_all
  show ?case
  proof (cases "m = majority")
    case True
    then show ?thesis by simp
  next
    case notmaj: False
    define w1 where "w1 = (if cts_get (self_cts self) m = 1 then w0 @ [m] else w0)"
    have w1: "w1 @ ?W ms = w0 @ ?W (m # ms)" using notmaj by (simp add: w1_def)
    show ?thesis
    proof (cases "?need m = 0")
      case True
      then have skip: "over_loop self majority n_required [0..<length col] (m # ms) (w0, s0, g) =
                 over_loop self majority n_required [0..<length col] ms (w1, s0, g)"
        using notmaj by (auto simp: n_samples_for_def Let_def w1_def split: if_splits)
      from Cons.IH [OF ms_in, of w1 s0 g] obtain s g' where
        r: "over_loop self majority n_required [0..<length col] ms (w1, s0, g) =
              Inr (w1 @ ?W ms, s0 @ s, g')"
        and sub: "set s \<subseteq> {..<length col}"
        and cnt: "\<forall>l. length (filter (\<lambda>i. col ! i = l) s) = ?C ms l"
        by blast
      have "\<forall>l. length (filter (\<lambda>i. col ! i = l) s) = ?C (m # ms) l"
        using cnt True notmaj by simp
      with r sub skip w1 show ?thesis by auto
    next
      case False
      define n where "n = ?need m"
      define recs where "recs = filter (\<lambda>i. col ! i = m) [0..<length col]"
      from False have n_pos: "0 < n" by (simp add: n_def)
      have n_eq: "n = nat (n_required - int (cts_get (self_cts self) m))"
        and low: "\<not> fdiv (real (cts_get (self_cts self) m)) (real (cts_get (self_cts self) majority)) \<ge> self_ratio self"
        and pos: "\<not> n_required - int (cts_get (self_cts self) m) \<le> 0"
        using False by (auto simp: n_def n_samples_for_def split: if_splits)
      have "recs \<noteq> []" unfolding recs_def using m_in by (rule positions_nonempty)
      from choice_replace_ok [OF this, of g n] obtain idcs g1 where
        ch: "choice g recs n True = Inr (idcs, g1)" and len: "length idcs = n"
        and sub1: "set idcs \<subseteq> set recs" by blast
      have step: "over_loop self majority n_required [0..<length col] (m # ms) (w0, s0, g) =
                 over_loop self majority n_required [0..<length col] ms (w1, s0 @ idcs, g1)"
        using notmaj low pos ch
        by (simp add: Let_def w1_def col recs_def [symmetric] n_eq [symmetric])
      from Cons.IH [OF ms_in, of w1 "s0 @ idcs" g1] obtain s g' where
        r: "over_loop self majority n_required [0..<length col] ms (w1, s0 @ idcs, g1) =
              Inr (w1 @ ?W ms, (s0 @ idcs) @ s, g')"
        and sub: "set s \<subseteq> {..<length col}"
        and cnt: "\<forall>l. length (filter (\<lambda>i. col ! i = l) s) = ?C ms l"
        by blast
      have sub2: "set (idcs @ s) \<subseteq> {..<length col}"
        using sub sub1 by (auto simp: recs_def)
      have "\<forall>l. length (filter (\<lambda>i. col ! i = l) (idcs @ s)) = ?C (m # ms) l"
      proof
        fix l
        have "length (filter (\<lambda>i. col ! i = l) idcs) = (if m = l then length idcs else 0)"
          using sub1 unfolding recs_def by (rule filter_label_positions)
        with cnt len show "length (filter (\<lambda>i. col ! i = l) (idcs @ s)) = ?C (m # ms) l"
          using notmaj by (simp add: n_def)
      qed
      with r sub2 step w1 show ?thesis by (metis append.assoc)
    qed
  qed
qed

lemma valid_partitioner_column:
  assumes init: "partitioner_init X y ratio = Inr self" and rect: "rectangular X"
  shows "length (self_target_col self) = nrows (self_X self)"
    and "set (self_index self) = set (self_target_col self)"
    and "distinct (self_index self)"
    and "2 \<le> length (self_index self)"
proof -
  from partitioner_init_Inr [OF init] obtain r :: real and s where
    d: "df_get X s = Inr (self_target_col self)" and x: "self_X self = X"
    and c: "self_cts self = sort_values (value_counts (self_target_col self))"
    and i: "self_index self = map fst (self_cts self)"
    and n: "2 \<le> length (self_cts self)" by blast
  from rectangular_column [OF rect d] x show "length (self_target_col self) = nrows (self_X self)"
    by simp
  from i c show "set (self_index self) = set (self_target_col self)"
    by (simp only: counts_table_keys_set)
  from i c show "distinct (self_index self)" by (simp only: counts_table_keys_distinct)
  from i n show "2 \<le> length (self_index self)" by simp
qed

lemma mset_split_filter:
  "mset xs = mset (filter (\<lambda>x. \<not> P x) xs) + mset (filter P xs)"
  by (induction xs) simp_all

lemma over_get_sample_indices_result:
  assumes init: "partitioner_init X y ratio = Inr self" and rect: "rectangular X"
  shows "\<exists>w s g1.
           set s \<subseteq> {..<nrows X} \<and>
           (\<forall>l. length (filter (\<lambda>i. self_target_col self ! i = l) s) =
              (if self_needs_balancing self then
                 sum_list (map (n_samples_for (self_cts self) (self_ratio self) (last (self_index self))
                     (max 1 (py_int (fmul (self_ratio self) (real (cts_get (self_cts self) (last (self_index self))))))))
                   (filter (\<lambda>m. m = l) (takeWhile (\<lambda>m. m \<noteq> last (self_index self)) (self_index self))))
               else 0)) \<and>
           w = (if self_needs_balancing self
                then filter (\<lambda>m. cts_get (self_cts self) m = 1)
                       (takeWhile (\<lambda>m. m \<noteq> last (self_index self)) (self_index self))
                else []) \<and>
           over_get_sample_indices self False g = Inr (w, sort ([0..<nrows X] @ s), g1) \<and>
           over_get_sample_indices self True g =
             Inr (w, fst (permutation g1 ([0..<nrows X] @ s)), snd (permutation g1 ([0..<nrows X] @ s)))"
proof -
  from partitioner_init_Inr [OF init] have x: "self_X self = X" by blast
  note v = valid_partitioner_column [OF init rect]
  define col where "col = self_target_col self"
  have len: "length col = nrows X" using v(1) x by (simp add: col_def)
  show ?thesis
  proof (cases "self_needs_balancing self")
    case False
    have "sort [0..<nrows X] = [0..<nrows X]" by (simp add: sorted_sort_id)
    with False x show ?thesis
      by (intro exI [of _ "[]"] exI [of _ g])
        (simp add: over_get_sample_indices_def default_indices_def Let_def split_beta)
  next
    case True
    define majority where "majority = last (self_index self)"
    define n_required where
      "n_required = max 1 (py_int (fmul (self_ratio self) (real (cts_get (self_cts self) majority))))"
    have "set (self_index self) \<subseteq> set col" using v(2) by (simp add: col_def)
    from over_loop_result [OF col_def [symmetric] this, of majority n_required "[]" "[]" g]
    obtain s g1 where
      r: "over_loop self majority n_required [0..<length col] (self_index self) ([], [], g) =
            Inr (filter (\<lambda>m. cts_get (self_cts self) m = 1)
                   (takeWhile (\<lambda>m. m \<noteq> majority) (self_index self)), s, g1)"
      and sub: "set s \<subseteq> {..<length col}"
      and cnt: "\<forall>l. length (filter (\<lambda>i. col ! i = l) s) =
              sum_list (map (n_samples_for (self_cts self) (self_ratio self) majority n_required)
                (filter (\<lambda>m. m = l) (takeWhile (\<lambda>m. m \<noteq> majority) (self_index self))))"
      by auto
    have a: "over_get_sample_indices self False g =
               Inr (filter (\<lambda>m. cts_get (self_cts self) m = 1)
                   (takeWhile (\<lambda>m. m \<noteq> majority) (self_index self)), sort ([0..<nrows X] @ s), g1)"
      using True r x len
      by (simp add: over_get_sample_indices_def Let_def majority_def [symmetric]
          n_required_def [symmetric])
    have b: "over_get_sample_indices self True g =
               Inr (filter (\<lambda>m. cts_get (self_cts self) m = 1)
                   (takeWhile (\<lambda>m. m \<noteq> majority) (self_index self)),
                    fst (permutation g1 ([0..<nrows X] @ s)), snd (permutation g1 ([0..<nrows X] @ s)))"
      using True r x len
      by (simp add: over_get_sample_indices_def Let_def majority_def [symmetric]
          n_required_def [symmetric] split_beta)
    from a b sub cnt True len show ?thesis
      unfolding majority_def n_required_def col_def by auto
  qed
qed

lemma under_get_sample_indices_result:
  assumes init: "partitioner_init X y ratio = Inr self" and rect: "rectangular X"
  shows "\<exists>idcs out g1 outS g2.
           mset idcs \<subseteq># mset (filter (\<lambda>i. self_target_col self ! i = last (self_index self)) [0..<nrows X]) \<and>
           length idcs =
             (let n_required = py_int (fmul (fdiv 1 (self_ratio self))
                    (real (cts_get (self_cts self) (self_index self ! (length (self_index self) - 2)))));
                  n_majority = cts_get (self_cts self) (last (self_index self))
              in if self_needs_balancing self \<and> n_required < int n_majority
                 then nat n_required else n_majority) \<and>
           mset out = mset (filter (\<lambda>i. self_target_col self ! i \<noteq> last (self_index self)) [0..<nrows X])
                        + mset idcs \<and>
           sorted out \<and> mset outS = mset out \<and>
           under_get_sample_indices self False g = Inr ([], out, g1) \<and>
           under_get_sample_indices self True g = Inr ([], outS, g2)"
proof -
  from partitioner_init_Inr [OF init] have x: "self_X self = X"
    and c: "self_cts self = sort_values (value_counts (self_target_col self))" by blast+
  note v = valid_partitioner_column [OF init rect]
  define col where "col = self_target_col self"
  define majority where "majority = last (self_index self)"
  define n_required where "n_required = py_int (fmul (fdiv 1 (self_ratio self))
      (real (cts_get (self_cts self) (self_index self ! (length (self_index self) - 2)))))"
  define recs where "recs = filter (\<lambda>i. col ! i = majority) [0..<nrows X]"
  define others where "others = filter (\<lambda>i. col ! i \<noteq> majority) [0..<nrows X]"
  have len: "length col = nrows X" using v(1) x by (simp add: col_def)
  from v(4) have "self_index self \<noteq> []" by auto
  then have "majority \<in> set (self_index self)" by (simp add: majority_def)
  then have maj_in: "majority \<in> set col" using v(2) by (simp add: col_def)
  have n_maj: "length recs = cts_get (self_cts self) majority"
    using cts_get_counts_table [OF maj_in] length_filter_positions [of col majority] len c
    by (simp add: recs_def col_def)
  have split_all: "mset [0..<nrows X] = mset others + mset recs"
    unfolding others_def recs_def by (rule mset_split_filter)
  have id_sorted: "sort [0..<nrows X] = [0..<nrows X]" by (simp add: sorted_sort_id)
  have eqn: "under_get_sample_indices self shuffle g' =
     (if \<not> self_needs_balancing self then
        (let (out, g') = default_indices g' (nrows X) shuffle in Inr ([], out, g'))
      else if int (cts_get (self_cts self) majority) \<le> n_required then Inr ([], sort [0..<nrows X], g')
           else
             case choice g' recs (nat n_required) False of
               Inl e \<Rightarrow> Inl e
             | Inr (idcs, g1) \<Rightarrow>
                 (if \<not> shuffle then Inr ([], sort (others @ idcs), g1)
                  else (let (out, g2) = permutation g1 (others @ idcs) in Inr ([], out, g2))))"
    for shuffle g'
    unfolding under_get_sample_indices_def Let_def majority_def n_required_def recs_def
      others_def col_def x by (rule refl)
  have goal_all: "?thesis" if
      eq: "under_get_sample_indices self False g = Inr ([], [0..<nrows X], g1)"
          "under_get_sample_indices self True g = Inr ([], outS, g2)"
          "mset outS = mset [0..<nrows X]"
      and k: "\<not> (self_needs_balancing self \<and> n_required < int (cts_get (self_cts self) majority))"
    for g1 outS g2
  proof -
    have "mset recs \<subseteq># mset recs" by simp
    moreover have "length recs = (let n_required = n_required;
                  n_majority = cts_get (self_cts self) majority
              in if self_needs_balancing self \<and> n_required < int n_majority
                 then nat n_required else n_majority)"
      using k n_maj by (auto simp: Let_def)
    moreover have "mset [0..<nrows X] = mset others + mset recs" by (rule split_all)
    moreover have "sorted [0..<nrows X]" by simp
    ultimately show ?thesis
      using eq unfolding recs_def others_def majority_def n_required_def col_def
      by blast
  qed
  show ?thesis
  proof (cases "self_needs_balancing self")
    case False
    have a: "under_get_sample_indices self False g = Inr ([], [0..<nrows X], g)"
      using False by (simp add: eqn default_indices_def Let_def)
    have b: "under_get_sample_indices self True g =
        Inr ([], fst (permutation g [0..<nrows X]), snd (permutation g [0..<nrows X]))"
      using False by (simp add: eqn default_indices_def Let_def split_beta)
    have c: "mset (fst (permutation g [0..<nrows X])) = mset [0..<nrows X]"
      by (rule permutation_mset)
    from False have "\<not> (self_needs_balancing self \<and> n_required < int (cts_get (self_cts self) majority))"
      by simp
    with a b c show ?thesis by (rule goal_all)
  next
    case True
    show ?thesis
    proof (cases "int (cts_get (self_cts self) majority) \<le> n_required")
      case le: True
      have a: "under_get_sample_indices self shuffle g = Inr ([], [0..<nrows X], g)" for shuffle
        using True le id_sorted by (simp add: eqn)
      from le have "\<not> (self_needs_balancing self \<and> n_required < int (cts_get (self_cts self) majority))"
        by simp
      with a [of False] a [of True] refl show ?thesis by (rule goal_all)
    next
      case gt: False
      then have "nat n_required \<le> length recs" using n_maj by simp
      moreover have "recs \<noteq> []"
        using positions_nonempty [OF maj_in] len by (simp add: recs_def)
      ultimately obtain idcs g1 where
        ch: "choice g recs (nat n_required) False = Inr (idcs, g1)"
        and l: "length idcs = nat n_required" and m: "mset idcs \<subseteq># mset recs"
        using choice_noreplace_ok [of recs "nat n_required" g] by blast
      have a: "under_get_sample_indices self False g = Inr ([], sort (others @ idcs), g1)"
        using True gt ch by (simp add: eqn)
      have b: "under_get_sample_indices self True g =
                 Inr ([], fst (permutation g1 (others @ idcs)), snd (permutation g1 (others @ idcs)))"
        using True gt ch by (simp add: eqn split_beta)
      have k: "length idcs = (let n_required = n_required;
                  n_majority = cts_get (self_cts self) majority
              in if self_needs_balancing self \<and> n_required < int n_majority
                 then nat n_required else n_majority)"
        using True gt l by (simp add: Let_def)
      have "mset (sort (others @ idcs)) = mset others + mset idcs" by simp
      moreover have "sorted (sort (others @ idcs))" by simp
      moreover have "mset (fst (permutation g1 (others @ idcs))) = mset (sort (others @ idcs))"
        by (simp add: permutation_mset)
      ultimately show ?thesis
        using a b k m unfolding recs_def others_def majority_def n_required_def col_def
        by blast
    qed
  qed
qed

lemma small_frame_init:
  "partitioner_init [(''A'', [0, 0, 0, 1])] (PyStr ''A'') (PyFloat (1 / 2)) =
     Inr \<lparr>self_X = [(''A'', [0, 0, 0, 1])], self_y = ''A'', self_ratio = 1 / 2,
          self_cts = [(1, 1), (0, 3)], self_index = [1, 0], self_target_col = [0, 0, 0, 1],
          self_needs_balancing = True\<rparr>"
  using fdiv_1_3
  by (simp add: partitioner_init_def validate_x_y_ratio_def validate_ratio_def
      validate_target_def validate_num_classes_def max_classes_def df_get_def
      value_counts_def sort_values_def Let_def)

text \<open>
  Claim C9: on a validated input, either partitioner returns a list of row positions;
  without shuffling it is sorted ascending (also on the identity path), and with
  shuffling it is a permutation of the list returned without shuffling on the same
  random draws.
\<close>

theorem partitioner_indices_sorted_or_permuted:
  assumes "partitioner_init X y ratio = Inr self" and "rectangular X"
  shows "\<exists>w out g1 wS outS g2.
           get_indices cls self False g = Inr (w, out, g1) \<and> sorted out \<and>
           get_indices cls self True g = Inr (wS, outS, g2) \<and> mset outS = mset out"
proof (cases cls)
  case OversamplingBalancePartitioner
  from over_get_sample_indices_result [OF assms, of g] obtain w s g1 where
    a: "over_get_sample_indices self False g = Inr (w, sort ([0..<nrows X] @ s), g1)"
    and b: "over_get_sample_indices self True g =
             Inr (w, fst (permutation g1 ([0..<nrows X] @ s)), snd (permutation g1 ([0..<nrows X] @ s)))"
    by blast
  obtain outS g2 where p: "permutation g1 ([0..<nrows X] @ s) = (outS, g2)"
    by (cases "permutation g1 ([0..<nrows X] @ s)")
  from b p have b': "over_get_sample_indices self True g = Inr (w, outS, g2)" by simp
  have "sorted (sort ([0..<nrows X] @ s))" by simp
  moreover have "mset outS = mset (sort ([0..<nrows X] @ s))"
    using permutation_mset [of g1 "[0..<nrows X] @ s"] p by simp
  ultimately show ?thesis
    using a b' OversamplingBalancePartitioner unfolding get_indices_def
    by (metis partitioner_class.simps(3))
next
  case UndersamplingBalancePartitioner
  from under_get_sample_indices_result [OF assms, of g] obtain out g1 outS g2 where
    "sorted out" "mset outS = mset out"
    "under_get_sample_indices self False g = Inr ([], out, g1)"
    "under_get_sample_indices self True g = Inr ([], outS, g2)"
    by blast
  then show ?thesis
    using UndersamplingBalancePartitioner unfolding get_indices_def by auto
qed

lemma small_frame_rect: "rectangular [(''A'', [0, 0, 0, 1 :: real])]"
  by (simp add: rectangular_def nrows_def)

theorem partitioner_indices_witness:
  "\<exists>self. partitioner_init [(''A'', [0, 0, 0, 1])] (PyStr ''A'') (PyFloat (1 / 2)) = Inr self \<and>
      rectangular [(''A'', [0, 0, 0, 1 :: real])] \<and>
      (\<exists>w out g1 wS outS g2.
         get_indices UndersamplingBalancePartitioner self False (\<lambda>i. i) = Inr (w, out, g1) \<and>
         sorted out \<and>
         get_indices UndersamplingBalancePartitioner self True (\<lambda>i. i) = Inr (wS, outS, g2) \<and>
         mset outS = mset out)"
  using partitioner_indices_sorted_or_permuted [OF small_frame_init small_frame_rect]
    small_frame_init small_frame_rect
  by blast

subsection \<open>Class counts of the balanced frame\<close>

lemma df_iloc_ok:
  assumes "set idx \<subseteq> {..<nrows X}"
  shows "df_iloc X idx = Inr (map (\<lambda>(nm, c). (nm, map (\<lambda>i. c ! i) idx)) X)"
  using assms by (auto simp: df_iloc_def list_all_iff)

lemma map_of_iloc:
  "map_of X s = Some col \<Longrightarrow>
   map_of (map (\<lambda>(nm, c). (nm, map (\<lambda>i. c ! i) idx)) X) s = Some (map (\<lambda>i. col ! i) idx)"
  by (simp add: map_of_map)

lemma count_list_filter_length: "count_list xs l = length (filter (\<lambda>x. x = l) xs)"
  by (induction xs) simp_all

lemma length_filter_mset: "length (filter P xs) = size (filter_mset P (mset xs))"
  by (metis mset_filter size_mset)

lemma class_count_iloc:
  assumes "map_of X s = Some col"
  shows "class_count (map (\<lambda>(nm, c). (nm, map (\<lambda>i. c ! i) idx)) X) s l =
         size (filter_mset (\<lambda>i. col ! i = l) (mset idx))"
proof -
  have "count_list (map (\<lambda>i. col ! i) idx) l = length (filter (\<lambda>i. col ! i = l) idx)"
    by (simp add: count_list_filter_length filter_map comp_def)
  also have "\<dots> = size (filter_mset (\<lambda>i. col ! i = l) (mset idx))"
    by (rule length_filter_mset)
  finally show ?thesis using map_of_iloc [OF assms, of idx] by (simp add: class_count_def)
qed

lemma nrows_iloc:
  "X \<noteq> [] \<Longrightarrow> nrows (map (\<lambda>(nm, c). (nm, map (\<lambda>i. c ! i) idx)) X) = length idx"
  by (cases X) (auto simp: nrows_def)

text \<open>Oversampling: the class counts of the balanced frame.\<close>

lemma over_balance_counts:
  assumes init: "partitioner_init X y ratio = Inr self" and rect: "rectangular X"
  shows "\<exists>w B g'.
           OversamplingClassBalancer_balance y ratio shuffle X g = Inr (w, B, g') \<and>
           w = (if self_needs_balancing self
                then filter (\<lambda>m. cts_get (self_cts self) m = 1)
                       (takeWhile (\<lambda>m. m \<noteq> last (self_index self)) (self_index self))
                else []) \<and>
           (\<forall>l. class_count B (self_y self) l =
              count_list (self_target_col self) l +
              (if self_needs_balancing self then
                 sum_list (map (n_samples_for (self_cts self) (self_ratio self) (last (self_index self))
                     (max 1 (py_int (fmul (self_ratio self) (real (cts_get (self_cts self) (last (self_index self))))))))
                   (filter (\<lambda>m. m = l) (takeWhile (\<lambda>m. m \<noteq> last (self_index self)) (self_index self))))
               else 0))"
proof -
  from partitioner_init_Inr [OF init] obtain r :: real and s where
    d: "df_get X s = Inr (self_target_col self)" and x: "self_X self = X" and ys: "self_y self = s"
    by blast
  define col where "col = self_target_col self"
  from d have m: "map_of X s = Some col" by (simp add: df_get_def col_def split: option.splits)
  have len: "length col = nrows X" using rectangular_column [OF rect d] by (simp add: col_def)
  let ?extra = "\<lambda>l. (if self_needs_balancing self then
                 sum_list (map (n_samples_for (self_cts self) (self_ratio self) (last (self_index self))
                     (max 1 (py_int (fmul (self_ratio self) (real (cts_get (self_cts self) (last (self_index self))))))))
                   (filter (\<lambda>m. m = l) (takeWhile (\<lambda>m. m \<noteq> last (self_index self)) (self_index self))))
               else 0)"
  let ?w = "(if self_needs_balancing self
                then filter (\<lambda>m. cts_get (self_cts self) m = 1)
                       (takeWhile (\<lambda>m. m \<noteq> last (self_index self)) (self_index self))
                else [])"
  from over_get_sample_indices_result [OF init rect, of g] obtain sm g1 where
    sub: "set sm \<subseteq> {..<nrows X}"
    and cnt: "\<forall>l. length (filter (\<lambda>i. col ! i = l) sm) = ?extra l"
    and a: "over_get_sample_indices self False g = Inr (?w, sort ([0..<nrows X] @ sm), g1)"
    and b: "over_get_sample_indices self True g =
             Inr (?w, fst (permutation g1 ([0..<nrows X] @ sm)), snd (permutation g1 ([0..<nrows X] @ sm)))"
    unfolding col_def by blast
  define out where "out = (if shuffle then fst (permutation g1 ([0..<nrows X] @ sm))
                           else sort ([0..<nrows X] @ sm))"
  define g' where "g' = (if shuffle then snd (permutation g1 ([0..<nrows X] @ sm)) else g1)"
  have gi: "over_get_sample_indices self shuffle g = Inr (?w, out, g')"
    using a b by (cases shuffle) (simp_all add: out_def g'_def)
  have ms: "mset out = mset [0..<nrows X] + mset sm"
    by (simp add: out_def permutation_mset)
  then have "set out = set [0..<nrows X] \<union> set sm" by (metis set_mset_mset set_mset_union)
  with sub have "set out \<subseteq> {..<nrows X}" by auto
  then have il: "df_iloc X out = Inr (map (\<lambda>(nm, c). (nm, map (\<lambda>i. c ! i) out)) X)"
    by (rule df_iloc_ok)
  define B where "B = map (\<lambda>(nm, c). (nm, map (\<lambda>i. c ! i) out)) X"
  have bal: "OversamplingClassBalancer_balance y ratio shuffle X g = Inr (?w, B, g')"
    using init gi il
    by (simp add: OversamplingClassBalancer_balance_def over_under_balance_def get_indices_def B_def
        validate_is_pd_plain)
  have "class_count B s l = count_list col l + ?extra l" for l
  proof -
    have "class_count B s l = size (filter_mset (\<lambda>i. col ! i = l) (mset out))"
      unfolding B_def using m by (rule class_count_iloc)
    also have "\<dots> = length (filter (\<lambda>i. col ! i = l) [0..<nrows X]) + length (filter (\<lambda>i. col ! i = l) sm)"
      by (simp only: ms filter_union_mset size_union length_filter_mset)
    also have "\<dots> = count_list col l + ?extra l"
      using cnt length_filter_positions [of col l] len by simp
    finally show ?thesis .
  qed
  with bal ys show ?thesis unfolding col_def by blast
qed

lemma X_over_counts:
  "sort_values (value_counts (replicate 100 0 @ replicate 30 1 @ replicate 25 2)) =
     [(2, 25), (1, 30), (0, 100)]"
  by code_simp

lemma X_over_init:
  "partitioner_init X_over (PyStr ''A'') (PyFloat (1 / 2)) =
     Inr \<lparr>self_X = X_over, self_y = ''A'', self_ratio = 1 / 2,
          self_cts = [(2, 25), (1, 30), (0, 100)], self_index = [2, 1, 0],
          self_target_col = replicate 100 0 @ replicate 30 1 @ replicate 25 2,
          self_needs_balancing = True\<rparr>"
  by (simp add: partitioner_init_def validate_x_y_ratio_def validate_ratio_def
      validate_target_def validate_num_classes_def max_classes_def df_get_def
      X_over_def X_over_counts Let_def fdiv_25_100)

lemma filter_filter_label:
  "filter (\<lambda>i. col ! i = l) (filter (\<lambda>i. col ! i \<noteq> majority) xs) =
     (if l = majority then [] else filter (\<lambda>i. col ! i = l) xs)"
  by (induction xs) auto

lemma under_balance_counts:
  assumes init: "partitioner_init X y ratio = Inr self" and rect: "rectangular X"
  shows "\<exists>B g'.
           UndersamplingClassBalancer_balance y ratio shuffle X g = Inr ([], B, g') \<and>
           (\<forall>l. class_count B (self_y self) l =
              (if l = last (self_index self) then
                 (let n_required = py_int (fmul (fdiv 1 (self_ratio self))
                        (real (cts_get (self_cts self) (self_index self ! (length (self_index self) - 2)))));
                      n_majority = cts_get (self_cts self) (last (self_index self))
                  in if self_needs_balancing self \<and> n_required < int n_majority
                     then nat n_required else n_majority)
               else count_list (self_target_col self) l))"
proof -
  from partitioner_init_Inr [OF init] obtain r :: real and s where
    d: "df_get X s = Inr (self_target_col self)" and x: "self_X self = X" and ys: "self_y self = s"
    by blast
  define col where "col = self_target_col self"
  define majority where "majority = last (self_index self)"
  define K where "K = (let n_required = py_int (fmul (fdiv 1 (self_ratio self))
                        (real (cts_get (self_cts self) (self_index self ! (length (self_index self) - 2)))));
                      n_majority = cts_get (self_cts self) majority
                  in if self_needs_balancing self \<and> n_required < int n_majority
                     then nat n_required else n_majority)"
  from d have m: "map_of X s = Some col" by (simp add: df_get_def col_def split: option.splits)
  have len: "length col = nrows X" using rectangular_column [OF rect d] by (simp add: col_def)
  from under_get_sample_indices_result [OF init rect, of g] obtain idcs out0 g1 outS g2 where
    sub: "mset idcs \<subseteq># mset (filter (\<lambda>i. col ! i = majority) [0..<nrows X])"
    and l: "length idcs = K"
    and ms: "mset out0 = mset (filter (\<lambda>i. col ! i \<noteq> majority) [0..<nrows X]) + mset idcs"
    and p: "mset outS = mset out0"
    and a: "under_get_sample_indices self False g = Inr ([], out0, g1)"
    and b: "under_get_sample_indices self True g = Inr ([], outS, g2)"
    unfolding col_def majority_def K_def by blast
  define out where "out = (if shuffle then outS else out0)"
  define g' where "g' = (if shuffle then g2 else g1)"
  have gi: "under_get_sample_indices self shuffle g = Inr ([], out, g')"
    using a b by (cases shuffle) (simp_all add: out_def g'_def)
  have mso: "mset out = mset (filter (\<lambda>i. col ! i \<noteq> majority) [0..<nrows X]) + mset idcs"
    using ms p by (simp add: out_def)
  from sub have idcs_in: "set idcs \<subseteq> set (filter (\<lambda>i. col ! i = majority) [0..<nrows X])"
    by (metis set_mset_mono set_mset_mset)
  have "set out = set (filter (\<lambda>i. col ! i \<noteq> majority) [0..<nrows X]) \<union> set idcs"
    using mso by (metis set_mset_mset set_mset_union)
  with idcs_in have "set out \<subseteq> {..<nrows X}" by auto
  then have il: "df_iloc X out = Inr (map (\<lambda>(nm, c). (nm, map (\<lambda>i. c ! i) out)) X)"
    by (rule df_iloc_ok)
  define B where "B = map (\<lambda>(nm, c). (nm, map (\<lambda>i. c ! i) out)) X"
  have bal: "UndersamplingClassBalancer_balance y ratio shuffle X g = Inr ([], B, g')"
    using init gi il
    by (simp add: UndersamplingClassBalancer_balance_def over_under_balance_def get_indices_def B_def
        validate_is_pd_plain)
  have "class_count B s l = (if l = majority then K else count_list col l)" for l
  proof -
    have "class_count B s l = size (filter_mset (\<lambda>i. col ! i = l) (mset out))"
      unfolding B_def using m by (rule class_count_iloc)
    also have "\<dots> = length (filter (\<lambda>i. col ! i = l) (filter (\<lambda>i. col ! i \<noteq> majority) [0..<nrows X]))
                     + length (filter (\<lambda>i. col ! i = l) idcs)"
      by (simp only: mso filter_union_mset size_union length_filter_mset)
    also have "length (filter (\<lambda>i. col ! i = l) idcs) = (if majority = l then length idcs else 0)"
      using idcs_in by (rule filter_label_positions)
    also have "length (filter (\<lambda>i. col ! i = l) (filter (\<lambda>i. col ! i \<noteq> majority) [0..<nrows X])) =
               (if l = majority then 0 else count_list col l)"
    proof -
      have "length (filter (\<lambda>i. col ! i = l) (filter (\<lambda>i. col ! i \<noteq> majority) [0..<nrows X])) =
            length (if l = majority then [] else filter (\<lambda>i. col ! i = l) [0..<nrows X])"
        by (simp only: filter_filter_label)
      also have "\<dots> = (if l = majority then 0 else length (filter (\<lambda>i. col ! i = l) [0..<length col]))"
        by (simp add: len)
      finally show ?thesis by (simp only: length_filter_positions)
    qed
    finally show ?thesis using l by auto
  qed
  with bal ys show ?thesis unfolding col_def majority_def K_def by blast
qed

lemma count_list_replicate: "count_list (replicate n x) l = (if x = l then n else 0)"
  by (induction n) auto

lemma X_over_rect: "rectangular X_over"
  by (simp add: rectangular_def X_over_def nrows_def)

lemma X_under_rect: "rectangular X_under"
  by (simp add: rectangular_def X_under_def nrows_def)

lemma X_under_counts:
  "sort_values (value_counts (replicate 150 0 @ replicate 30 1 @ replicate 10 2)) =
     [(2, 10), (1, 30), (0, 150)]"
  by code_simp

lemma X_under_init:
  "partitioner_init X_under (PyStr ''A'') (PyFloat (1 / 2)) =
     Inr \<lparr>self_X = X_under, self_y = ''A'', self_ratio = 1 / 2,
          self_cts = [(2, 10), (1, 30), (0, 150)], self_index = [2, 1, 0],
          self_target_col = replicate 150 0 @ replicate 30 1 @ replicate 10 2,
          self_needs_balancing = True\<rparr>"
  using fdiv_10_150
  by (simp add: partitioner_init_def validate_x_y_ratio_def validate_ratio_def
      validate_target_def validate_num_classes_def max_classes_def df_get_def
      X_under_def X_under_counts Let_def)

text \<open>
  Claim C5: on 100 rows of class 0, 30 of class 1 and 25 of class 2, oversampling with
  ratio 0.5 returns a frame with exactly 100, 50 and 50 rows of the three classes (and of
  no other), for every random stream and with or without shuffling.
\<close>

theorem oversample_scenario:
  "\<exists>w B g'. OversamplingClassBalancer_balance (PyStr ''A'') (PyFloat (1 / 2)) shuffle X_over g
               = Inr (w, B, g') \<and>
             (\<forall>l. class_count B ''A'' l =
                (if l = 0 then 100 else if l = 1 then 50 else if l = 2 then 50 else 0))"
proof -
  from over_balance_counts [OF X_over_init X_over_rect, of shuffle g] obtain w B g' where
    b: "OversamplingClassBalancer_balance (PyStr ''A'') (PyFloat (1 / 2)) shuffle X_over g = Inr (w, B, g')"
    and c: "\<forall>l. class_count B ''A'' l =
              count_list (replicate 100 0 @ replicate 30 1 @ replicate 25 (2::real)) l +
              sum_list (map (n_samples_for [(2, 25), (1, 30), (0, 100)] (1 / 2) 0 50)
                   (filter (\<lambda>m. m = l) [2, 1]))"
    by (auto simp: cts_get_def py_int_def fmul_half_100)
  have "class_count B ''A'' l = (if l = 0 then 100 else if l = 1 then 50 else if l = 2 then 50 else 0)" for l
    using c fdiv_30_100 by (simp add: count_list_replicate n_samples_for_def cts_get_def fdiv_25_100)
  with b show ?thesis by blast
qed

text \<open>
  Claim C6: on 150 rows of class 0, 30 of class 1 and 10 of class 2, undersampling with
  ratio 0.5 returns a frame with exactly 60, 30 and 10 rows of the three classes (and of
  no other), for every random stream and with or without shuffling.
\<close>

theorem undersample_scenario:
  "\<exists>w B g'. UndersamplingClassBalancer_balance (PyStr ''A'') (PyFloat (1 / 2)) shuffle X_under g
               = Inr (w, B, g') \<and>
             (\<forall>l. class_count B ''A'' l =
                (if l = 0 then 60 else if l = 1 then 30 else if l = 2 then 10 else 0))"
proof -
  from under_balance_counts [OF X_under_init X_under_rect, of shuffle g] obtain B g' where
    b: "UndersamplingClassBalancer_balance (PyStr ''A'') (PyFloat (1 / 2)) shuffle X_under g = Inr ([], B, g')"
    and c: "\<forall>l. class_count B ''A'' l =
              (if l = 0 then 60 else count_list (replicate 150 0 @ replicate 30 1 @ replicate 10 (2::real)) l)"
    by (auto simp: cts_get_def py_int_def Let_def fdiv_1_half fmul_2_30)
  have "class_count B ''A'' l = (if l = 0 then 60 else if l = 1 then 30 else if l = 2 then 10 else 0)" for l
    using c by (simp add: count_list_replicate)
  with b show ?thesis by blast
qed

subsection \<open>A class of a single row\<close>

lemma takeWhile_not_last:
  "distinct xs \<Longrightarrow> xs \<noteq> [] \<Longrightarrow> takeWhile (\<lambda>x. x \<noteq> last xs) xs = butlast xs"
proof (induction xs)
  case Nil
  then show ?case by simp
next
  case (Cons a xs)
  show ?case
  proof (cases "xs = []")
    case True
    then show ?thesis by simp
  next
    case False
    with Cons.prems have "a \<noteq> last xs" by auto
    with Cons False show ?thesis by simp
  qed
qed

lemma filter_eq_distinct:
  "distinct xs \<Longrightarrow> m \<in> set xs \<Longrightarrow> filter (\<lambda>x. x = m) xs = [m]"
  by (induction xs) (auto simp: filter_empty_conv)

lemma counts_table_entry:
  assumes "p \<in> set (sort_values (value_counts col))"
  shows "fst p \<in> set col" and "snd p = count_list col (fst p)"
    and "cts_get (sort_values (value_counts col)) (fst p) = snd p"
proof -
  from assms show a: "fst p \<in> set col" and b: "snd p = count_list col (fst p)"
    by (auto simp: counts_table_set)
  from cts_get_counts_table [OF a] b
  show "cts_get (sort_values (value_counts col)) (fst p) = snd p" by simp
qed

lemma counts_table_hd_least:
  assumes "sort_values (value_counts col) \<noteq> []" and "m \<in> set col"
  shows "snd (hd (sort_values (value_counts col))) \<le> count_list col m"
proof -
  let ?T = "sort_values (value_counts col)"
  from assms(2) have "(m, count_list col m) \<in> set ?T" by (simp add: counts_table_set)
  then have "count_list col m \<in> set (map snd ?T)" by force
  moreover from assms(1) have "map snd ?T = snd (hd ?T) # tl (map snd ?T)"
    by (cases ?T) simp_all
  moreover have "sorted (map snd ?T)" by (rule counts_table_sorted)
  ultimately show ?thesis by (metis order_refl set_ConsD sorted_simps(2))
qed

text \<open>On a validated input with a class of one row, the least populous label has one row.\<close>

lemma singleton_class_first:
  assumes v: "validate_x_y_ratio X y ratio = Inr (cts, index, col, n, nb)"
    and m: "m \<in> set col" and one: "count_list col m = 1"
  shows "cts_get cts (hd index) = 1" and "snd (hd cts) = 1" and "index \<noteq> []"
    and "nb \<Longrightarrow> hd index \<noteq> last index"
proof -
  from validate_x_y_ratio_Inr [OF v] obtain r and s :: string where
    c: "cts = sort_values (value_counts col)" and i: "index = map fst cts"
    and n2: "2 \<le> length cts"
    and nb: "nb = (fdiv (real (snd (hd cts))) (real (snd (last cts))) < r)"
    and r: "r \<le> 1" by blast
  from n2 have ne: "cts \<noteq> []" by auto
  then have hd_in: "hd cts \<in> set cts" and last_in: "last cts \<in> set cts" by simp_all
  from i ne show "index \<noteq> []" by simp
  from counts_table_hd_least [of col m] ne m one c have le: "snd (hd cts) \<le> 1" by simp
  from counts_table_entry(1,2) [of "hd cts" col] hd_in c have "0 < snd (hd cts)"
    by (simp add: count_list_pos)
  with le show h1: "snd (hd cts) = 1" by simp
  from counts_table_entry(3) [of "hd cts" col] hd_in c i ne h1
  show "cts_get cts (hd index) = 1" by (simp add: hd_map)
  show "hd index \<noteq> last index" if nb
  proof
    assume "hd index = last index"
    with i ne have "fst (hd cts) = fst (last cts)" by (simp add: hd_map last_map)
    moreover from counts_table_entry(2) [of "hd cts" col] counts_table_entry(2) [of "last cts" col]
      hd_in last_in c
    have "snd (hd cts) = count_list col (fst (hd cts))" "snd (last cts) = count_list col (fst (last cts))"
      by simp_all
    ultimately have "snd (last cts) = 1" using h1 by simp
    with h1 nb that r show False by (simp add: fdiv_1_1)
  qed
qed

text \<open>
  After its first statement, the SMOTE balancer meets a class of one row in the first
  iteration of its loop and raises the single-observation error.
\<close>

lemma smote_rest_single_observation:
  assumes v: "validate_x_y_ratio X y ratio = Inr (cts, index, col, n, True)"
    and m: "m \<in> set col" and one: "count_list col m = 1"
  shows "SMOTE_balance_rest nn k y ratio shuffle X g = Inl (SingleObservation (hd index))"
proof -
  note f = singleton_class_first [OF v m one]
  from f(3) obtain h rest where idx: "index = h # rest" by (cases index) auto
  with f(1) f(4) have h1: "cts_get cts h = 1" and h2: "h \<noteq> last (h # rest)" by simp_all
  have "smote_loop nn k y' r' cts (last (h # rest)) nreq (h # rest) (X0, g) = Inl (SingleObservation h)"
    for y' r' nreq X0
    using h1 h2 by (simp del: last.simps)
  with v idx show ?thesis
    by (simp add: SMOTE_balance_rest_def Let_def del: last.simps)
qed

lemma over_singleton_class:
  assumes v: "validate_x_y_ratio X (PyStr s) (PyFloat r) = Inr (cts, index, col, n, True)"
    and rect: "rectangular X"
    and m: "m \<in> set col" and one: "count_list col m = 1"
  shows "\<exists>w B g'. OversamplingClassBalancer_balance (PyStr s) (PyFloat r) shuffle X g = Inr (w, B, g') \<and>
           m \<in> set w \<and>
           class_count B s m = nat (max 1 (py_int (fmul r (real (cts_get cts (last index))))))"
proof -
  define self where "self = \<lparr>self_X = X, self_y = s, self_ratio = r,
               self_cts = cts, self_index = index, self_target_col = col,
               self_needs_balancing = True\<rparr>"
  have init: "partitioner_init X (PyStr s) (PyFloat r) = Inr self"
    using v by (simp add: partitioner_init_def self_def)
  define majority where "majority = last index"
  define nreq where "nreq = max 1 (py_int (fmul r (real (cts_get cts majority))))"
  note f = singleton_class_first [OF v m one]
  from validate_x_y_ratio_Inr [OF v] have
    c: "cts = sort_values (value_counts col)" and i: "index = map fst cts"
    and n2: "2 \<le> length cts"
    and nb: "fdiv (real (snd (hd cts))) (real (snd (last cts))) < r" and r1: "r \<le> 1"
    by auto
  from n2 have ne: "cts \<noteq> []" by auto
  have dist: "distinct index" using i c by (simp only: counts_table_keys_distinct)
  have m_idx: "m \<in> set index" using i c m by (simp only: counts_table_keys_set)
  have cm: "cts_get cts m = 1" using cts_get_counts_table [OF m] c one by simp
  have "cts_get cts majority = snd (last cts)"
    using counts_table_entry(3) [of "last cts" col] ne c i by (simp add: majority_def last_map)
  with nb f(2) have low: "fdiv 1 (real (cts_get cts majority)) < r" by simp
  with r1 have "cts_get cts majority \<noteq> 1" by (auto simp: fdiv_1_1)
  with cm have "m \<noteq> majority" by auto
  with m_idx f(3) have m_bl: "m \<in> set (butlast index)"
    unfolding majority_def by (metis append_butlast_last_id insert_iff
        list.set(2) set_append Un_iff empty_iff empty_set)
  have tw: "takeWhile (\<lambda>x. x \<noteq> majority) index = butlast index"
    unfolding majority_def using dist f(3) by (rule takeWhile_not_last)
  have fl: "filter (\<lambda>x. x = m) (butlast index) = [m]"
    using distinct_butlast [OF dist] m_bl by (rule filter_eq_distinct)
  from over_balance_counts [OF init rect, of shuffle g] obtain w B g' where
    b: "OversamplingClassBalancer_balance (PyStr s) (PyFloat r) shuffle X g = Inr (w, B, g')"
    and w: "w = filter (\<lambda>m. cts_get cts m = 1) (butlast index)"
    and cnt: "\<forall>l. class_count B s l = count_list col l +
               sum_list (map (n_samples_for cts r majority nreq) (filter (\<lambda>m. m = l) (butlast index)))"
    unfolding self_def nreq_def majority_def
    by (auto simp: tw [unfolded majority_def])
  from w cm m_bl have "m \<in> set w" by simp
  moreover have "class_count B s m = nat nreq"
  proof -
    have "n_samples_for cts r majority nreq m = nat (nreq - 1)"
      using low cm by (simp add: n_samples_for_def)
    moreover have "1 \<le> nreq" by (simp add: nreq_def)
    ultimately show ?thesis using cnt one fl by simp
  qed
  ultimately show ?thesis using b unfolding nreq_def majority_def by blast
qed

lemma X_single_counts:
  "sort_values (value_counts [0, 0, 0, 0, 0, 0, 1]) = [(1, 1), (0, 6)]"
  by code_simp

lemma X_single_validated:
  "validate_x_y_ratio X_single (PyStr ''y'') (PyFloat (1 / 2)) =
     Inr ([(1, 1), (0, 6)], [1, 0], [0, 0, 0, 0, 0, 0, 1], 2, True)"
  using fdiv_1_6
  by (simp add: validate_x_y_ratio_def validate_ratio_def validate_target_def
      validate_num_classes_def max_classes_def df_get_def X_single_def X_single_counts Let_def)

lemma X_single_rect: "rectangular X_single"
  by (simp add: rectangular_def X_single_def nrows_def)

text \<open>
  Claim C7 on six rows of class 0 and one row of class 1, with ratio 0.5: the SMOTE
  balancer fails with the error of its first statement, not with the single-observation
  error that the rest of the method would raise; the oversampling balancer returns a
  frame, with the sampling warning recorded for class 1 and its single row repeated up to
  three rows.
\<close>

theorem smote_singleton_type_error:
  "SMOTEClassBalancer_balance nn k (PyStr ''y'') (PyFloat (1 / 2)) shuffle X_single g = Inl TypeError \<and>
   SMOTE_balance_rest nn k (PyStr ''y'') (PyFloat (1 / 2)) shuffle X_single g
     = Inl (SingleObservation 1) \<and>
   (\<exists>w B g'. OversamplingClassBalancer_balance (PyStr ''y'') (PyFloat (1 / 2)) shuffle X_single g
        = Inr (w, B, g') \<and> 1 \<in> set w \<and> class_count B ''y'' 1 = 3)"
proof -
  have m: "(1::real) \<in> set [0, 0, 0, 0, 0, 0, 1]" by simp
  have one: "count_list [0, 0, 0, 0, 0, 0, 1 :: real] 1 = 1" by simp
  from smote_rest_single_observation [OF X_single_validated m one, of nn k shuffle g]
  have a: "SMOTE_balance_rest nn k (PyStr ''y'') (PyFloat (1 / 2)) shuffle X_single g
     = Inl (SingleObservation 1)" by simp
  from over_singleton_class [OF X_single_validated X_single_rect m one, of shuffle g]
  have b: "\<exists>w B g'. OversamplingClassBalancer_balance (PyStr ''y'') (PyFloat (1 / 2)) shuffle X_single g
        = Inr (w, B, g') \<and> 1 \<in> set w \<and> class_count B ''y'' 1 = 3"
    by (simp add: cts_get_def py_int_def fmul_half_6)
  from a b SMOTE_balance_type_error show ?thesis by simp
qed

subsection \<open>SMOTE on a draw of at most \<open>k\<close> points\<close>


lemma choice_length: "choice g a n replace = Inr (idcs, g') \<Longrightarrow> length idcs = n"
  using draw_with_length [of g a n] draw_without_length [of g a n]
  by (auto simp: choice_def split: if_splits)

























end
